theory Spec2Isabelle
  imports Complex_Main "HOL-Library.AList"
begin

section \<open>Python values used by the placement engine\<close>

text \<open>
  Exceptions the modelled code can raise. A function that can raise returns
  \<open>error + 'a\<close>, with \<open>Inl\<close> for the exception.
\<close>

datatype error = ZeroDivisionError | ValueError | IndexError | TypeError | OverflowError

text \<open>Python's \<open>range(a, b)\<close> over integers: empty when \<open>b \<le> a\<close>.\<close>

definition range_py :: "int \<Rightarrow> int \<Rightarrow> int list" where
  "range_py a b = [a..b - 1]"

text \<open>Python's floor division \<open>a // b\<close>; HOL's \<open>div\<close> on \<open>int\<close> also rounds down.\<close>

definition floordiv :: "int \<Rightarrow> int \<Rightarrow> error + int" where
  "floordiv a b = (if b = 0 then Inl ZeroDivisionError else Inr (a div b))"

subsection \<open>The occupancy array\<close>

text \<open>
  The numpy array \<open>self.grid\<close> of shape \<open>(grid_length, grid_width)\<close> is a list of rows.
  An index \<open>i\<close> into an axis of size \<open>n\<close> is valid for \<open>-n \<le> i < n\<close>; a negative index
  counts from the end, any other index raises IndexError.
\<close>

type_synonym ndarray = "int list list"

definition np_zeros :: "int \<Rightarrow> int \<Rightarrow> error + ndarray" where
  "np_zeros rows cols =
     (if rows < 0 \<or> cols < 0 then Inl ValueError
      else Inr (replicate (nat rows) (replicate (nat cols) 0)))"

definition np_index :: "nat \<Rightarrow> int \<Rightarrow> nat option" where
  "np_index n i =
     (if 0 \<le> i \<and> i < int n then Some (nat i)
      else if - int n \<le> i \<and> i < 0 then Some (nat (i + int n))
      else None)"

definition np_get :: "ndarray \<Rightarrow> int \<Rightarrow> int \<Rightarrow> error + int" where
  "np_get a y x =
     (case np_index (length a) y of
        None \<Rightarrow> Inl IndexError
      | Some r \<Rightarrow>
         (case np_index (length (a ! r)) x of
            None \<Rightarrow> Inl IndexError
          | Some c \<Rightarrow> Inr (a ! r ! c)))"

definition np_set :: "ndarray \<Rightarrow> int \<Rightarrow> int \<Rightarrow> int \<Rightarrow> error + ndarray" where
  "np_set a y x v =
     (case np_index (length a) y of
        None \<Rightarrow> Inl IndexError
      | Some r \<Rightarrow>
         (case np_index (length (a ! r)) x of
            None \<Rightarrow> Inl IndexError
          | Some c \<Rightarrow> Inr (a[r := (a ! r)[c := v]])))"

section \<open>datacenter\_grid.py: the grid\<close>

abbreviation EMPTY :: int where "EMPTY \<equiv> 0"
abbreviation PILLAR :: int where "PILLAR \<equiv> 1"
abbreviation RACK :: int where "RACK \<equiv> 2"
abbreviation WALL :: int where "WALL \<equiv> 3"

text \<open>
  The element dictionary built by \<open>place_element\<close>. The keys \<open>x\<close>, \<open>y\<close>, \<open>width\<close>,
  \<open>height\<close>, \<open>type\<close> and \<open>id\<close> are the fields \<open>el_x\<close>, \<open>el_y\<close>, \<open>el_width\<close>, \<open>el_height\<close>,
  \<open>el_type\<close> and \<open>el_id\<close>; the key \<open>id\<close> exists only once \<open>place_racks\<close> has set it.
  Lengths in metres are Python floats; they are modelled as rationals, and the
  products of \<open>get_real_coordinates\<close> and \<open>place_element\<close> with exact arithmetic, where
  the floats are rounded (\<open>3 * 0.6\<close> is \<open>1.7999999999999998\<close>). The four metre fields of
  an element are carried along only: no statement below reads them.
\<close>

record element =
  grid_x :: int
  grid_y :: int
  width_cells :: int
  height_cells :: int
  el_x :: rat
  el_y :: rat
  el_width :: rat
  el_height :: rat
  el_type :: int
  el_id :: "string option"

record DataCenterGrid =
  width_m :: rat
  length_m :: rat
  grid_size_m :: rat
  grid_width :: int
  grid_length :: int
  grid :: ndarray
  pillars :: "element list"
  racks :: "element list"
  walls :: "element list"
  support_rooms :: "element list"

text \<open>
  \<open>__init__\<close>: no parameter is validated. The division of two floats raises
  ZeroDivisionError for a zero cell size and rounds its result otherwise. The
  parameter \<open>cells\<close> stands for this floating-point computation: \<open>cells a b\<close> is the value
  of \<open>int(np.ceil(a / b))\<close> for \<open>b \<noteq> 0\<close>, the rounded quotient rounded up to an integer, or
  the exception of the conversion (OverflowError when the quotient is infinite). The
  width is computed before the length. \<open>np.zeros\<close> raises ValueError for a negative
  dimension.
\<close>

definition DataCenterGrid_init ::
  "(rat \<Rightarrow> rat \<Rightarrow> error + int) \<Rightarrow> rat \<Rightarrow> rat \<Rightarrow> rat \<Rightarrow> error + DataCenterGrid" where
  "DataCenterGrid_init cells w_m l_m size_m =
     (if size_m = 0 then Inl ZeroDivisionError
      else
        case cells w_m size_m of
          Inl e \<Rightarrow> Inl e
        | Inr gw \<Rightarrow>
           (case cells l_m size_m of
              Inl e \<Rightarrow> Inl e
            | Inr gl \<Rightarrow>
               (case np_zeros gl gw of
                  Inl e \<Rightarrow> Inl e
                | Inr a \<Rightarrow>
                    Inr \<lparr>width_m = w_m, length_m = l_m, grid_size_m = size_m,
                         grid_width = gw, grid_length = gl, grid = a,
                         pillars = [], racks = [], walls = [], support_rooms = []\<rparr>)))"

text \<open>
  Floating-point division is correctly rounded: when the quotient of the two floats is
  a whole number below \<open>2^53\<close>, it is computed exactly and \<open>int(np.ceil(a / b))\<close> is that
  number. \<open>exact_cells\<close> is the computation on such arguments; the examples use it on
  the quotients \<open>10 / 1\<close>, \<open>0 / 1\<close>, \<open>12 / 2\<close>, \<open>8 / 2\<close> and their negatives only. On
  other arguments the rounding of the quotient can change the count
  (\<open>4.2 / 0.6\<close> gives 8 cells).
\<close>

definition exact_cells :: "rat \<Rightarrow> rat \<Rightarrow> error + int" where
  "exact_cells a b = Inr \<lceil>a / b\<rceil>"

definition get_real_coordinates :: "DataCenterGrid \<Rightarrow> int \<Rightarrow> int \<Rightarrow> rat \<times> rat" where
  "get_real_coordinates g gx gy = (of_int gx * grid_size_m g, of_int gy * grid_size_m g)"

definition is_within_grid :: "DataCenterGrid \<Rightarrow> int \<Rightarrow> int \<Rightarrow> int \<Rightarrow> int \<Rightarrow> bool" where
  "is_within_grid g gx gy w h =
     (if gx < 0 \<or> gy < 0 \<or> gx + w > grid_width g \<or> gy + h > grid_length g
      then False else True)"

text \<open>
  The cells visited by the nested loops \<open>for y in range(gy, gy + h): for x in
  range(gx, gx + w)\<close>, in the order of the visit, as pairs \<open>(y, x)\<close>.
\<close>

definition area_cells :: "int \<Rightarrow> int \<Rightarrow> int \<Rightarrow> int \<Rightarrow> (int \<times> int) list" where
  "area_cells gx gy w h =
     concat (map (\<lambda>y. map (\<lambda>x. (y, x)) (range_py gx (gx + w))) (range_py gy (gy + h)))"

fun all_empty :: "ndarray \<Rightarrow> (int \<times> int) list \<Rightarrow> error + bool" where
  "all_empty a [] = Inr True"
| "all_empty a ((y, x) # cs) =
     (case np_get a y x of
        Inl e \<Rightarrow> Inl e
      | Inr v \<Rightarrow> if v \<noteq> EMPTY then Inr False else all_empty a cs)"

definition is_area_empty :: "DataCenterGrid \<Rightarrow> int \<Rightarrow> int \<Rightarrow> int \<Rightarrow> int \<Rightarrow> error + bool" where
  "is_area_empty g gx gy w h =
     (if \<not> is_within_grid g gx gy w h then Inr False
      else all_empty (grid g) (area_cells gx gy w h))"

fun mark_cells :: "ndarray \<Rightarrow> (int \<times> int) list \<Rightarrow> int \<Rightarrow> error + ndarray" where
  "mark_cells a [] t = Inr a"
| "mark_cells a ((y, x) # cs) t =
     (case np_set a y x t of
        Inl e \<Rightarrow> Inl e
      | Inr a' \<Rightarrow> mark_cells a' cs t)"

text \<open>
  \<open>place_element\<close> returns the element (or \<open>None\<close>) together with the grid after the
  call. Only the field \<open>grid\<close> is ever written.
\<close>

definition place_element ::
  "DataCenterGrid \<Rightarrow> int \<Rightarrow> int \<Rightarrow> int \<Rightarrow> int \<Rightarrow> int \<Rightarrow> error + (element option \<times> DataCenterGrid)" where
  "place_element g gx gy w h t =
     (case is_area_empty g gx gy w h of
        Inl e \<Rightarrow> Inl e
      | Inr False \<Rightarrow> Inr (None, g)
      | Inr True \<Rightarrow>
         (case mark_cells (grid g) (area_cells gx gy w h) t of
            Inl e \<Rightarrow> Inl e
          | Inr a \<Rightarrow>
             (let (xm, ym) = get_real_coordinates g gx gy;
                  wm = of_int w * grid_size_m g;
                  hm = of_int h * grid_size_m g
              in Inr (Some \<lparr>grid_x = gx, grid_y = gy, width_cells = w, height_cells = h,
                            el_x = xm, el_y = ym, el_width = wm, el_height = hm,
                            el_type = t, el_id = None\<rparr>,
                      g\<lparr>grid := a\<rparr>))))"

text \<open>
  The shape the constructor gives the occupancy array: \<open>grid_length\<close> rows of
  \<open>grid_width\<close> cells. No operation changes the shape or the two dimensions.
\<close>

definition shape_ok :: "DataCenterGrid \<Rightarrow> bool" where
  "shape_ok g \<longleftrightarrow>
     int (length (grid g)) = grid_length g \<and>
     list_all (\<lambda>row. int (length row) = grid_width g) (grid g)"

text \<open>The cell \<open>(cx, cy)\<close> lies in the rectangle \<open>[x, x+w) \<times> [y, y+h)\<close>.\<close>

definition in_rect :: "int \<Rightarrow> int \<Rightarrow> int \<Rightarrow> int \<Rightarrow> int \<Rightarrow> int \<Rightarrow> bool" where
  "in_rect x y w h cx cy \<longleftrightarrow> x \<le> cx \<and> cx < x + w \<and> y \<le> cy \<and> cy < y + h"

text \<open>The indices \<open>[y, x]\<close> address a cell of the array without wrapping around.\<close>

definition in_range :: "ndarray \<Rightarrow> int \<Rightarrow> int \<Rightarrow> bool" where
  "in_range a y x \<longleftrightarrow> 0 \<le> y \<and> y < int (length a) \<and> 0 \<le> x \<and> x < int (length (a ! nat y))"

text \<open>The room of the examples: \<open>DataCenterGrid(10, 10, grid_size_m=1.0)\<close>, 10 by 10 cells.\<close>

definition room_10x10 :: DataCenterGrid where
  "room_10x10 = projr (DataCenterGrid_init exact_cells 10 10 1)"

text \<open>
  The cell \<open>(cx, cy)\<close> lies in the rectangle of an element of the list \<open>es\<close>, and in the
  rectangle of an element of one of the four lists of the grid.
\<close>

definition covered :: "element list \<Rightarrow> int \<Rightarrow> int \<Rightarrow> bool" where
  "covered es cx cy \<longleftrightarrow>
     list_ex (\<lambda>e. in_rect (grid_x e) (grid_y e) (width_cells e) (height_cells e) cx cy) es"

definition listed :: "DataCenterGrid \<Rightarrow> int \<Rightarrow> int \<Rightarrow> bool" where
  "listed g cx cy \<longleftrightarrow>
     covered (pillars g) cx cy \<or> covered (racks g) cx cy \<or> covered (walls g) cx cy \<or>
     covered (support_rooms g) cx cy"

section \<open>rack\_manager.py\<close>

abbreviation RACK_WIDTH_CELLS :: int where "RACK_WIDTH_CELLS \<equiv> 2"
abbreviation RACK_HEIGHT_CELLS :: int where "RACK_HEIGHT_CELLS \<equiv> 1"

text \<open>
  The row loop of \<open>calculate_rack_positions\<close>, over the rows still to visit. The
  \<open>break\<close> on \<open>racks_in_this_row <= 0\<close> ends the loop.
\<close>

fun fill_rows :: "int \<Rightarrow> int \<Rightarrow> int \<Rightarrow> int \<Rightarrow> int \<Rightarrow> int list \<Rightarrow> (int \<times> int) list" where
  "fill_rows max_racks_per_row num_racks bottom_margin left_margin row_spacing [] = []"
| "fill_rows max_racks_per_row num_racks bottom_margin left_margin row_spacing (row # rows) =
     (let gy = bottom_margin + row * (RACK_HEIGHT_CELLS + row_spacing);
          racks_in_this_row = min max_racks_per_row (num_racks - row * max_racks_per_row)
      in if racks_in_this_row \<le> 0 then []
         else map (\<lambda>rack_idx. (left_margin + rack_idx * RACK_WIDTH_CELLS, gy))
                  (range_py 0 racks_in_this_row)
              @ fill_rows max_racks_per_row num_racks bottom_margin left_margin row_spacing rows)"

definition calculate_rack_positions ::
  "DataCenterGrid \<Rightarrow> int \<Rightarrow> int \<Rightarrow> int \<Rightarrow> int \<Rightarrow> int \<Rightarrow> int \<Rightarrow> error + (int \<times> int) list" where
  "calculate_rack_positions g num_racks top_margin bottom_margin left_margin right_margin row_spacing =
     (let available_width = grid_width g - left_margin - right_margin;
          available_height = grid_length g - top_margin - bottom_margin;
          max_racks_per_row = available_width div RACK_WIDTH_CELLS
      in if max_racks_per_row = 0 then Inr []
         else
           let rows_needed = (num_racks + max_racks_per_row - 1) div max_racks_per_row;
               total_height_needed = rows_needed * (RACK_HEIGHT_CELLS + row_spacing) - row_spacing
           in if total_height_needed > available_height then
                (case floordiv available_height (RACK_HEIGHT_CELLS + row_spacing) of
                   Inl e \<Rightarrow> Inl e
                 | Inr max_rows \<Rightarrow>
                     let max_racks = max_rows * max_racks_per_row
                     in Inr (fill_rows max_racks_per_row max_racks bottom_margin left_margin
                               row_spacing (range_py 0 max_rows)))
              else Inr (fill_rows max_racks_per_row num_racks bottom_margin left_margin
                          row_spacing (range_py 0 rows_needed)))"

text \<open>Python's \<open>str\<close> of a natural number, for the f-string \<open>f'R{i+1}'\<close>.\<close>

fun str_nat :: "nat \<Rightarrow> string" where
  "str_nat n =
     (if n < 10 then [char_of (48 + n)]
      else str_nat (n div 10) @ [char_of (48 + n mod 10)])"

text \<open>
  \<open>place_racks\<close>: the loop over \<open>enumerate(rack_positions)\<close>, with the grid and the
  list \<open>placed_racks\<close> built so far. The identifier is made from the index \<open>i\<close> of the
  candidate. An exception of \<open>place_element\<close> ends the loop; it is returned with the
  list and the grid of that moment (the exception comes from the reads of
  \<open>is_area_empty\<close>, before any write: lemma \<open>mark_cells_after_all_empty\<close>).
\<close>

fun place_racks_loop ::
  "DataCenterGrid \<Rightarrow> element list \<Rightarrow> (nat \<times> int \<times> int) list \<Rightarrow>
   (error \<times> element list \<times> DataCenterGrid) + (element list \<times> DataCenterGrid)" where
  "place_racks_loop g placed_racks [] = Inr (placed_racks, g)"
| "place_racks_loop g placed_racks ((i, gx, gy) # rest) =
     (case place_element g gx gy RACK_WIDTH_CELLS RACK_HEIGHT_CELLS RACK of
        Inl e \<Rightarrow> Inl (e, placed_racks, g)
      | Inr (None, g') \<Rightarrow> place_racks_loop g' placed_racks rest
      | Inr (Some rack, g') \<Rightarrow>
          (let rack' = rack\<lparr>el_id := Some (''R'' @ str_nat (i + 1))\<rparr>
           in place_racks_loop (g'\<lparr>racks := racks g' @ [rack']\<rparr>) (placed_racks @ [rack']) rest))"

definition place_racks ::
  "DataCenterGrid \<Rightarrow> (int \<times> int) list \<Rightarrow>
   (error \<times> element list \<times> DataCenterGrid) + (element list \<times> DataCenterGrid)" where
  "place_racks g rack_positions = place_racks_loop g [] (enumerate 0 rack_positions)"

section \<open>pillar\_manager.py\<close>

definition place_pillar ::
  "DataCenterGrid \<Rightarrow> int \<Rightarrow> int \<Rightarrow> int \<Rightarrow> int \<Rightarrow> error + (element option \<times> DataCenterGrid)" where
  "place_pillar g gx gy gw gh =
     (case place_element g gx gy gw gh PILLAR of
        Inl e \<Rightarrow> Inl e
      | Inr (None, g') \<Rightarrow> Inr (None, g')
      | Inr (Some pillar, g') \<Rightarrow> Inr (Some pillar, g'\<lparr>pillars := pillars g' @ [pillar]\<rparr>))"

text \<open>The loop \<open>for grid_x, grid_y in pillar_positions\<close> of both placement modes.\<close>

fun place_pillars_loop ::
  "DataCenterGrid \<Rightarrow> element list \<Rightarrow> int \<Rightarrow> int \<Rightarrow> (int \<times> int) list \<Rightarrow>
   error + (element list \<times> DataCenterGrid)" where
  "place_pillars_loop g placed_pillars gw gh [] = Inr (placed_pillars, g)"
| "place_pillars_loop g placed_pillars gw gh ((gx, gy) # rest) =
     (case place_pillar g gx gy gw gh of
        Inl e \<Rightarrow> Inl e
      | Inr (None, g') \<Rightarrow> place_pillars_loop g' placed_pillars gw gh rest
      | Inr (Some pillar, g') \<Rightarrow> place_pillars_loop g' (placed_pillars @ [pillar]) gw gh rest)"

text \<open>
  The positions computed by \<open>place_pillars_by_count\<close>. The pillar size in cells,
  \<open>int(round(mm * 0.001 / grid_size_m))\<close> in the source, is floating-point arithmetic
  and is taken as the parameters \<open>pillar_grid_width\<close> and \<open>pillar_grid_height\<close>.
\<close>

definition count_position ::
  "int \<Rightarrow> int \<Rightarrow> int \<Rightarrow> int \<Rightarrow> int \<Rightarrow> int" where
  "count_position room_cells pillar_cells num_pillars spacing_cells idx =
     (let pos = (if num_pillars > 1
                 then (if idx < num_pillars - 1 then idx * spacing_cells
                       else room_cells - pillar_cells)
                 else (room_cells - pillar_cells) div 2)
      in if idx = 0 then 0 else pos)"

definition pillar_positions_by_count ::
  "DataCenterGrid \<Rightarrow> int \<Rightarrow> int \<Rightarrow> int \<Rightarrow> int \<Rightarrow> (int \<times> int) list" where
  "pillar_positions_by_count g pillar_grid_width pillar_grid_height num_pillars_x num_pillars_y =
     (let room_width_cells = grid_width g;
          room_length_cells = grid_length g;
          x_spacing_cells = (if num_pillars_x > 1 then room_width_cells div (num_pillars_x - 1)
                             else room_width_cells);
          y_spacing_cells = (if num_pillars_y > 1 then room_length_cells div (num_pillars_y - 1)
                             else room_length_cells)
      in concat (map (\<lambda>y_idx. map (\<lambda>x_idx.
           (count_position room_width_cells pillar_grid_width num_pillars_x x_spacing_cells x_idx,
            count_position room_length_cells pillar_grid_height num_pillars_y y_spacing_cells y_idx))
           (range_py 0 num_pillars_x)) (range_py 0 num_pillars_y)))"

definition place_pillars_by_count ::
  "DataCenterGrid \<Rightarrow> int \<Rightarrow> int \<Rightarrow> int \<Rightarrow> int \<Rightarrow> error + (element list \<times> DataCenterGrid)" where
  "place_pillars_by_count g pillar_grid_width pillar_grid_height num_pillars_x num_pillars_y =
     place_pillars_loop (g\<lparr>pillars := []\<rparr>) [] pillar_grid_width pillar_grid_height
       (pillar_positions_by_count g pillar_grid_width pillar_grid_height
          num_pillars_x num_pillars_y)"

section \<open>rack\_layout\_optimizer.py: clearing the racks\<close>

text \<open>
  One cell of \<open>_clear_racks\<close>: the \<open>try\<close> around the read and the write turns an
  IndexError into \<open>pass\<close>.
\<close>

definition clear_cell :: "ndarray \<Rightarrow> int \<times> int \<Rightarrow> ndarray" where
  "clear_cell a c =
     (case np_get a (fst c) (snd c) of
        Inl e \<Rightarrow> a
      | Inr v \<Rightarrow>
          if v = RACK then (case np_set a (fst c) (snd c) EMPTY of Inl e \<Rightarrow> a | Inr a' \<Rightarrow> a')
          else a)"

text \<open>
  The cells the two inner loops visit for one rack: \<open>y\<close> runs over
  \<open>range(grid_y, grid_y + width_cells)\<close> and \<open>x\<close> over \<open>range(grid_x, grid_x + height_cells)\<close>.
\<close>

definition clear_rack_cells :: "element \<Rightarrow> (int \<times> int) list" where
  "clear_rack_cells rack =
     concat (map (\<lambda>y. map (\<lambda>x. (y, x))
                   (range_py (grid_x rack) (grid_x rack + height_cells rack)))
        (range_py (grid_y rack) (grid_y rack + width_cells rack)))"

definition clear_racks :: "DataCenterGrid \<Rightarrow> DataCenterGrid" where
  "clear_racks g =
     g\<lparr>grid := foldl (\<lambda>a rack. foldl clear_cell a (clear_rack_cells rack)) (grid g) (racks g),
       racks := []\<rparr>"

text \<open>
  Candidate \<open>i\<close> of a list is committed when its footprint is free in the grid that
  \<open>place_racks\<close> has reached after the first \<open>i\<close> candidates.
\<close>

definition commit_succeeds :: "DataCenterGrid \<Rightarrow> (int \<times> int) list \<Rightarrow> nat \<Rightarrow> bool" where
  "commit_succeeds g ps i =
     (case place_racks g (take i ps) of
        Inl e \<Rightarrow> False
      | Inr (placed, gi) \<Rightarrow>
          is_area_empty gi (fst (ps ! i)) (snd (ps ! i)) RACK_WIDTH_CELLS RACK_HEIGHT_CELLS
            = Inr True)"

text \<open>
  The invariant of the data model, checked cell by cell: an EMPTY cell lies in the
  footprint of no listed pillar, rack or wall, and any other cell lies in the footprint
  of exactly one of them, which is in the list of the cell's type.
\<close>

definition elements_of_type :: "DataCenterGrid \<Rightarrow> int \<Rightarrow> element list" where
  "elements_of_type g t =
     (if t = PILLAR then pillars g else if t = RACK then racks g
      else if t = WALL then walls g else [])"

definition covering :: "element list \<Rightarrow> int \<Rightarrow> int \<Rightarrow> element list" where
  "covering es cx cy =
     filter (\<lambda>e. in_rect (grid_x e) (grid_y e) (width_cells e) (height_cells e) cx cy) es"

definition cell_consistent :: "DataCenterGrid \<Rightarrow> int \<Rightarrow> int \<Rightarrow> bool" where
  "cell_consistent g cx cy =
     (case np_get (grid g) cy cx of
        Inl e \<Rightarrow> False
      | Inr v \<Rightarrow>
          if v = EMPTY then covering (pillars g @ racks g @ walls g) cx cy = []
          else length (covering (pillars g @ racks g @ walls g) cx cy) = 1 \<and>
               length (covering (elements_of_type g v) cx cy) = 1)"

definition occupancy_consistent :: "DataCenterGrid \<Rightarrow> bool" where
  "occupancy_consistent g =
     list_all (\<lambda>cy. list_all (\<lambda>cx. cell_consistent g cx cy) (range_py 0 (grid_width g)))
       (range_py 0 (grid_length g))"

section \<open>rack\_layout\_optimizer.py: the basic strategies\<close>

text \<open>
  The slice \<open>xs[:n]\<close>: the first \<open>n\<close> elements, or all but the last \<open>-n\<close> when \<open>n\<close> is
  negative.
\<close>

definition slice_upto :: "int \<Rightarrow> 'a list \<Rightarrow> 'a list" where
  "slice_upto n xs = (if 0 \<le> n then take (nat n) xs else take (length xs - nat (- n)) xs)"

text \<open>
  \<open>int(math.sqrt(k))\<close>: ValueError for a negative argument, otherwise the integer
  square root (the floating-point root is correctly rounded, so its integer part is
  exact for the sizes of pods and clusters, far below \<open>2^52\<close>).
\<close>

fun sqrt_floor :: "nat \<Rightarrow> nat" where
  "sqrt_floor 0 = 0"
| "sqrt_floor (Suc n) = (let r = sqrt_floor n in if (r + 1) * (r + 1) \<le> Suc n then r + 1 else r)"

definition int_sqrt :: "int \<Rightarrow> error + int" where
  "int_sqrt k = (if k < 0 then Inl ValueError else Inr (int (sqrt_floor (nat k))))"

subsection \<open>rack\_manager.py: rows split by a central aisle\<close>

fun fill_aisle_rows ::
  "int \<Rightarrow> int \<Rightarrow> int \<Rightarrow> int \<Rightarrow> int \<Rightarrow> int \<Rightarrow> int \<Rightarrow> int list \<Rightarrow> (int \<times> int) list" where
  "fill_aisle_rows max_racks_per_half_row num_racks bottom_margin row_spacing center_x
     aisle_width max_racks_per_row [] = []"
| "fill_aisle_rows max_racks_per_half_row num_racks bottom_margin row_spacing center_x
     aisle_width max_racks_per_row (row # rows) =
     (let gy = bottom_margin + row * (RACK_HEIGHT_CELLS + row_spacing);
          racks_in_this_row = min max_racks_per_row (num_racks - row * max_racks_per_row)
      in if racks_in_this_row \<le> 0 then []
         else
           let racks_left = min max_racks_per_half_row racks_in_this_row;
               racks_right = min max_racks_per_half_row (racks_in_this_row - racks_left)
           in map (\<lambda>rack_idx.
                     (center_x - aisle_width div 2 - (rack_idx + 1) * RACK_WIDTH_CELLS, gy))
                  (range_py 0 racks_left)
              @ map (\<lambda>rack_idx. (center_x + aisle_width div 2 + rack_idx * RACK_WIDTH_CELLS, gy))
                  (range_py 0 racks_right)
              @ fill_aisle_rows max_racks_per_half_row num_racks bottom_margin row_spacing
                  center_x aisle_width max_racks_per_row rows)"

definition calculate_rack_positions_with_aisle ::
  "DataCenterGrid \<Rightarrow> int \<Rightarrow> int \<Rightarrow> int \<Rightarrow> int \<Rightarrow> int \<Rightarrow> int \<Rightarrow> int \<Rightarrow>
   error + (int \<times> int) list" where
  "calculate_rack_positions_with_aisle g num_racks top_margin bottom_margin left_margin
     right_margin row_spacing aisle_width =
     (let available_width = grid_width g - left_margin - right_margin;
          available_height = grid_length g - top_margin - bottom_margin;
          max_racks_per_half_row = (available_width - aisle_width) div (2 * RACK_WIDTH_CELLS)
      in if max_racks_per_half_row = 0 then Inr []
         else
           let max_racks_per_row = max_racks_per_half_row * 2;
               rows_needed = (num_racks + max_racks_per_row - 1) div max_racks_per_row;
               total_height_needed = rows_needed * (RACK_HEIGHT_CELLS + row_spacing) - row_spacing;
               center_x = left_margin + available_width div 2
           in if total_height_needed > available_height then
                (case floordiv available_height (RACK_HEIGHT_CELLS + row_spacing) of
                   Inl e \<Rightarrow> Inl e
                 | Inr max_rows \<Rightarrow>
                     let max_racks = max_rows * max_racks_per_row
                     in Inr (fill_aisle_rows max_racks_per_half_row max_racks bottom_margin
                               row_spacing center_x aisle_width max_racks_per_row
                               (range_py 0 max_rows)))
              else Inr (fill_aisle_rows max_racks_per_half_row num_racks bottom_margin
                          row_spacing center_x aisle_width max_racks_per_row
                          (range_py 0 rows_needed)))"

subsection \<open>rack\_layout\_optimizer.py: the parameter dictionary\<close>

text \<open>
  The integer entries of the dictionary \<open>params\<close>, for the optimizer's strategies and
  for those of advanced\_layout\_strategies.py, each holding what
  \<open>params.get(key, default)\<close> yields. \<open>center_x\<close> and \<open>center_y\<close> are optional, since
  their default depends on the grid. The entries \<open>diagonal_angle\<close> and
  \<open>high_density_pct\<close> are only used in floating-point expressions, which are
  parameters of the strategies below.
\<close>

record layout_params =
  top_margin :: int
  bottom_margin :: int
  left_margin :: int
  right_margin :: int
  row_spacing :: int
  aisle_width :: int
  pod_size :: int
  spine_width :: int
  cluster_spacing :: int
  cluster_size :: int
  center_x :: "int option"
  center_y :: "int option"
  min_radius :: int
  spacing :: int
  cold_aisle_width :: int
  hot_aisle_width :: int
  high_density_spacing :: int

definition default_params :: layout_params where
  "default_params =
     \<lparr>top_margin = 3, bottom_margin = 3, left_margin = 3, right_margin = 3,
      row_spacing = 2, aisle_width = 4, pod_size = 16,
      spine_width = 4, cluster_spacing = 4, cluster_size = 8,
      center_x = None, center_y = None, min_radius = 5, spacing = 1,
      cold_aisle_width = 3, hot_aisle_width = 4, high_density_spacing = 2\<rparr>"

definition generate_standard_layout ::
  "DataCenterGrid \<Rightarrow> int \<Rightarrow> layout_params \<Rightarrow> error + (int \<times> int) list" where
  "generate_standard_layout g num_racks params =
     calculate_rack_positions g num_racks (top_margin params) (bottom_margin params)
       (left_margin params) (right_margin params) (row_spacing params)"

definition generate_hot_cold_layout ::
  "DataCenterGrid \<Rightarrow> int \<Rightarrow> layout_params \<Rightarrow> error + (int \<times> int) list" where
  "generate_hot_cold_layout g num_racks params =
     calculate_rack_positions_with_aisle g num_racks (top_margin params) (bottom_margin params)
       (left_margin params) (right_margin params) (row_spacing params) (aisle_width params)"

subsection \<open>Diagonal layout\<close>

text \<open>
  The floating-point results of \<open>_generate_diagonal_layout\<close>, computed from the angle,
  the available space and the row spacing: \<open>racks_per_diagonal\<close> and \<open>diagonal_rows\<close>
  (both \<open>int(...)\<close> of a quotient), \<open>x_offset row i\<close> for
  \<open>int(row * (row_width + row_spacing) + offset_x)\<close> and \<open>y_offset i\<close> for
  \<open>int(offset_y)\<close>. They are a parameter of the model, or the exception that the
  quotients raise.
\<close>

record diagonal_floats =
  racks_per_diagonal :: int
  diagonal_rows :: int
  x_offset :: "int \<Rightarrow> int \<Rightarrow> int"
  y_offset :: "int \<Rightarrow> int"

definition diagonal_row ::
  "DataCenterGrid \<Rightarrow> int \<Rightarrow> layout_params \<Rightarrow> diagonal_floats \<Rightarrow> int \<Rightarrow> (int \<times> int) list" where
  "diagonal_row g num_racks params fl row =
     (let row_racks = min (racks_per_diagonal fl) (num_racks - row * racks_per_diagonal fl)
      in concat (map (\<lambda>i.
           let gx = left_margin params + x_offset fl row i;
               gy = bottom_margin params + y_offset fl i
           in if gx \<ge> 0 \<and> gx + RACK_WIDTH_CELLS \<le> grid_width g \<and>
                 gy \<ge> 0 \<and> gy + RACK_HEIGHT_CELLS \<le> grid_length g
              then [(gx, gy)] else [])
           (range_py 0 row_racks)))"

definition generate_diagonal_layout ::
  "DataCenterGrid \<Rightarrow> int \<Rightarrow> layout_params \<Rightarrow> error + diagonal_floats \<Rightarrow>
   error + (int \<times> int) list" where
  "generate_diagonal_layout g num_racks params floats =
     (case floats of
        Inl e \<Rightarrow> Inl e
      | Inr fl \<Rightarrow>
          (case floordiv (num_racks + racks_per_diagonal fl - 1) (racks_per_diagonal fl) of
             Inl e \<Rightarrow> Inl e
           | Inr rows_for_count \<Rightarrow>
               Inr (concat (map (diagonal_row g num_racks params fl)
                      (range_py 0 (min (diagonal_rows fl) rows_for_count))))))"

subsection \<open>Perimeter layout\<close>

text \<open>
  One pass of the \<open>while\<close> loop of \<open>_generate_perimeter_layout\<close>: the positions of the
  ring at \<open>current_margin\<close> and the racks still needed after it.
\<close>

definition perimeter_ring ::
  "int \<Rightarrow> int \<Rightarrow> layout_params \<Rightarrow> int \<Rightarrow> int \<Rightarrow> (int \<times> int) list \<times> int" where
  "perimeter_ring available_width available_height params current_margin racks_needed =
     (let ring_width = available_width - 2 * current_margin;
          ring_height = available_height - 2 * current_margin;
          left_right = min (2 * (ring_height div RACK_HEIGHT_CELLS)) racks_needed;
          racks_needed1 = racks_needed - left_right;
          top_bottom = (if racks_needed1 > 0
                        then min (2 * ((ring_width - 2 * RACK_WIDTH_CELLS) div RACK_WIDTH_CELLS))
                               racks_needed1
                        else 0);
          racks_needed2 = (if racks_needed1 > 0 then racks_needed1 - top_bottom
                           else racks_needed1);
          left_side = map (\<lambda>i. (left_margin params + current_margin,
                                 bottom_margin params + current_margin + i * RACK_HEIGHT_CELLS))
                        (range_py 0 (min (ring_height div RACK_HEIGHT_CELLS) left_right));
          right_side = map (\<lambda>i. (left_margin params + current_margin + ring_width
                                    - RACK_WIDTH_CELLS,
                                  bottom_margin params + current_margin + i * RACK_HEIGHT_CELLS))
                         (range_py 0 (min (ring_height div RACK_HEIGHT_CELLS)
                            (max 0 (left_right - ring_height div RACK_HEIGHT_CELLS))));
          bottom_side = map (\<lambda>i. (left_margin params + current_margin + RACK_WIDTH_CELLS
                                     + i * RACK_WIDTH_CELLS,
                                   bottom_margin params + current_margin))
                          (range_py 0 (min ((ring_width - 2 * RACK_WIDTH_CELLS) div RACK_WIDTH_CELLS)
                             top_bottom));
          top_side = map (\<lambda>i. (left_margin params + current_margin + RACK_WIDTH_CELLS
                                  + i * RACK_WIDTH_CELLS,
                                bottom_margin params + current_margin + ring_height
                                  - RACK_HEIGHT_CELLS))
                       (range_py 0 (min ((ring_width - 2 * RACK_WIDTH_CELLS) div RACK_WIDTH_CELLS)
                          (max 0 (top_bottom
                             - (ring_width - 2 * RACK_WIDTH_CELLS) div RACK_WIDTH_CELLS))))
      in (left_side @ right_side @ bottom_side @ top_side, racks_needed2))"

text \<open>
  The \<open>while\<close> loop. It need not end (with a row spacing of \<open>-2\<close> the margin never
  grows), so the result is an option: \<open>None\<close> when the loop runs forever.
\<close>

partial_function (option) perimeter_rings ::
  "int \<Rightarrow> int \<Rightarrow> layout_params \<Rightarrow> int \<Rightarrow> int \<Rightarrow> (int \<times> int) list \<Rightarrow> (int \<times> int) list option" where
  "perimeter_rings available_width available_height params current_margin racks_needed
     rack_positions =
     (if racks_needed > 0 \<and> current_margin * 2 < min available_width available_height
      then perimeter_rings available_width available_height params
             (current_margin + RACK_WIDTH_CELLS + row_spacing params)
             (snd (perimeter_ring available_width available_height params current_margin
                     racks_needed))
             (rack_positions
              @ fst (perimeter_ring available_width available_height params current_margin
                       racks_needed))
      else Some rack_positions)"

definition generate_perimeter_layout ::
  "DataCenterGrid \<Rightarrow> int \<Rightarrow> layout_params \<Rightarrow> (int \<times> int) list option" where
  "generate_perimeter_layout g num_racks params =
     (let available_width = grid_width g - left_margin params - right_margin params;
          available_height = grid_length g - top_margin params - bottom_margin params
      in map_option (slice_upto num_racks)
           (perimeter_rings available_width available_height params 0 num_racks []))"

subsection \<open>Pod layout\<close>

text \<open>
  The loops of \<open>_generate_pod_layout\<close> carry the list built so far and the counter
  \<open>racks_placed\<close>. A \<open>break\<close> leaves the innermost loop only.
\<close>

fun pod_cols_loop ::
  "int \<Rightarrow> int \<Rightarrow> int \<Rightarrow> (int \<times> int) list \<times> int \<Rightarrow> int list \<Rightarrow> (int \<times> int) list \<times> int" where
  "pod_cols_loop racks_to_place pod_x gy st [] = st"
| "pod_cols_loop racks_to_place pod_x gy st (col # cols) =
     (if snd st \<ge> racks_to_place then st
      else pod_cols_loop racks_to_place pod_x gy
             (fst st @ [(pod_x + col * (RACK_WIDTH_CELLS + 1), gy)], snd st + 1) cols)"

definition pod_fill ::
  "int \<Rightarrow> int \<Rightarrow> int \<Rightarrow> int \<Rightarrow> int \<Rightarrow> (int \<times> int) list \<times> int \<Rightarrow> (int \<times> int) list \<times> int" where
  "pod_fill racks_to_place pod_x pod_y pod_rows pod_cols st =
     foldl (\<lambda>st row. pod_cols_loop racks_to_place pod_x (pod_y + row * (RACK_HEIGHT_CELLS + 1)) st
                        (range_py 0 pod_cols))
       st (range_py 0 pod_rows)"

fun pods_in_row_loop ::
  "int \<Rightarrow> layout_params \<Rightarrow> int \<Rightarrow> int \<Rightarrow> int \<Rightarrow> int \<Rightarrow> int \<Rightarrow>
   (int \<times> int) list \<times> int \<Rightarrow> int list \<Rightarrow> (int \<times> int) list \<times> int" where
  "pods_in_row_loop racks_to_place params pod_width pod_height pod_rows pod_cols pod_row st [] = st"
| "pods_in_row_loop racks_to_place params pod_width pod_height pod_rows pod_cols pod_row st
     (pod_col # rest) =
     (if snd st \<ge> racks_to_place then st
      else
        let pod_x = left_margin params + pod_col * (pod_width + aisle_width params);
            pod_y = bottom_margin params + pod_row * (pod_height + aisle_width params)
        in pods_in_row_loop racks_to_place params pod_width pod_height pod_rows pod_cols pod_row
             (pod_fill racks_to_place pod_x pod_y pod_rows pod_cols st) rest)"

definition generate_pod_layout ::
  "DataCenterGrid \<Rightarrow> int \<Rightarrow> layout_params \<Rightarrow> error + (int \<times> int) list" where
  "generate_pod_layout g num_racks params =
     (let available_width = grid_width g - left_margin params - right_margin params;
          available_height = grid_length g - top_margin params - bottom_margin params
      in case int_sqrt (pod_size params) of
           Inl e \<Rightarrow> Inl e
         | Inr pod_rows \<Rightarrow>
         (case floordiv (pod_size params) pod_rows of
           Inl e \<Rightarrow> Inl e
         | Inr pod_cols \<Rightarrow>
         (let pod_width = pod_cols * RACK_WIDTH_CELLS + (pod_cols - 1);
              pod_height = pod_rows * RACK_HEIGHT_CELLS + (pod_rows - 1)
          in case floordiv available_width (pod_width + aisle_width params) of
               Inl e \<Rightarrow> Inl e
             | Inr pods_per_row \<Rightarrow>
             (case floordiv available_height (pod_height + aisle_width params) of
               Inl e \<Rightarrow> Inl e
             | Inr pods_per_col \<Rightarrow>
             (let total_pods = pods_per_row * pods_per_col;
                  total_racks_in_pods = total_pods * pod_size params;
                  racks_to_place = min num_racks total_racks_in_pods
              in Inr (fst (foldl (\<lambda>st pod_row.
                             pods_in_row_loop racks_to_place params pod_width pod_height
                               pod_rows pod_cols pod_row st (range_py 0 pods_per_row))
                           ([], 0) (range_py 0 pods_per_col))))))))"

section \<open>advanced\_layout\_strategies.py\<close>

subsection \<open>Spine-leaf layout\<close>

text \<open>
  \<open>spine_x i\<close> stands for the floating-point
  \<open>int(left_margin + i * (available_width / num_spines))\<close>.
\<close>

definition leaf_sections ::
  "int list \<Rightarrow> layout_params \<Rightarrow> int \<Rightarrow> (int \<times> int) list" where
  "leaf_sections spine_positions params available_width =
     concat (map (\<lambda>i.
        let start_x = (if i > 0 then spine_positions ! nat i + spine_width params
                       else left_margin params);
            end_x = (if i < int (length spine_positions) - 1 then spine_positions ! nat (i + 1)
                     else left_margin params + available_width)
        in if end_x - start_x \<ge> RACK_WIDTH_CELLS then [(start_x, end_x)] else [])
       (range_py 0 (int (length spine_positions))))"

text \<open>
  The loop over the racks of one row, the loop over the rows of one section, and the
  loop over the sections; the state is the list built so far and \<open>racks_needed\<close>. A
  loop ends early when \<open>racks_needed <= 0\<close> after an append.
\<close>

fun leaf_row_loop ::
  "int \<Rightarrow> int \<Rightarrow> (int \<times> int) list \<times> int \<Rightarrow> int list \<Rightarrow> (int \<times> int) list \<times> int" where
  "leaf_row_loop start_x row_y st [] = st"
| "leaf_row_loop start_x row_y st (rack # rest) =
     (let st' = (fst st @ [(start_x + rack * RACK_WIDTH_CELLS, row_y)], snd st - 1)
      in if snd st' \<le> 0 then st' else leaf_row_loop start_x row_y st' rest)"

fun leaf_rows_loop ::
  "int \<Rightarrow> int \<Rightarrow> layout_params \<Rightarrow> (int \<times> int) list \<times> int \<Rightarrow> int list \<Rightarrow>
   (int \<times> int) list \<times> int" where
  "leaf_rows_loop start_x racks_per_row params st [] = st"
| "leaf_rows_loop start_x racks_per_row params st (row # rows) =
     (let row_y = bottom_margin params + row * (RACK_HEIGHT_CELLS + row_spacing params);
          racks_in_row = min racks_per_row (snd st);
          st' = leaf_row_loop start_x row_y st (range_py 0 racks_in_row)
      in if snd st' \<le> 0 then st'
         else leaf_rows_loop start_x racks_per_row params st' rows)"

fun leaf_sections_loop ::
  "int \<Rightarrow> layout_params \<Rightarrow> (int \<times> int) list \<times> int \<Rightarrow> (int \<times> int) list \<Rightarrow>
   error + (int \<times> int) list \<times> int" where
  "leaf_sections_loop available_height params st [] = Inr st"
| "leaf_sections_loop available_height params st ((start_x, end_x) # rest) =
     (let section_width = end_x - start_x;
          racks_per_row = section_width div RACK_WIDTH_CELLS
      in if racks_per_row \<le> 0
         then leaf_sections_loop available_height params st rest
         else
           (case floordiv available_height (RACK_HEIGHT_CELLS + row_spacing params) of
              Inl e \<Rightarrow> Inl e
            | Inr rows_fit \<Rightarrow>
                let rows_needed = min ((snd st + racks_per_row - 1) div racks_per_row) rows_fit
                in leaf_sections_loop available_height params
                     (leaf_rows_loop start_x racks_per_row params st (range_py 0 rows_needed))
                     rest))"

definition generate_spine_leaf_layout ::
  "DataCenterGrid \<Rightarrow> int \<Rightarrow> layout_params \<Rightarrow> (int \<Rightarrow> int) \<Rightarrow> error + (int \<times> int) list" where
  "generate_spine_leaf_layout g num_racks params spine_x =
     (let available_width = grid_width g - left_margin params - right_margin params;
          available_height = grid_length g - top_margin params - bottom_margin params;
          num_spines = max 1 (available_width div 20);
          spine_positions = map spine_x (range_py 0 num_spines)
      in case leaf_sections_loop available_height params ([], num_racks)
                (leaf_sections spine_positions params available_width) of
           Inl e \<Rightarrow> Inl e
         | Inr st \<Rightarrow> Inr (fst st))"

subsection \<open>Cluster layout\<close>

text \<open>
  The four nested loops of \<open>generate_cluster_layout\<close>, innermost first. The state is the
  list built so far and \<open>racks_needed\<close>.
\<close>

fun cluster_j_loop ::
  "int \<Rightarrow> int \<Rightarrow> (int \<times> int) list \<times> int \<Rightarrow> int list \<Rightarrow> (int \<times> int) list \<times> int" where
  "cluster_j_loop cluster_x gy st [] = st"
| "cluster_j_loop cluster_x gy st (j # rest) =
     (let st' = (fst st @ [(cluster_x + j * RACK_WIDTH_CELLS, gy)], snd st - 1)
      in if snd st' \<le> 0 then st' else cluster_j_loop cluster_x gy st' rest)"

fun cluster_i_loop ::
  "int \<Rightarrow> int \<Rightarrow> int \<Rightarrow> int \<Rightarrow> (int \<times> int) list \<times> int \<Rightarrow> int list \<Rightarrow>
   (int \<times> int) list \<times> int" where
  "cluster_i_loop cluster_x cluster_y cluster_grid_width racks_in_cluster st [] = st"
| "cluster_i_loop cluster_x cluster_y cluster_grid_width racks_in_cluster st (i # rest) =
     (let st' = cluster_j_loop cluster_x (cluster_y + i * RACK_HEIGHT_CELLS) st
                  (range_py 0 (min cluster_grid_width (racks_in_cluster - i * cluster_grid_width)))
      in if snd st' \<le> 0 then st'
         else cluster_i_loop cluster_x cluster_y cluster_grid_width racks_in_cluster st' rest)"

fun cluster_col_loop ::
  "layout_params \<Rightarrow> int \<Rightarrow> int \<Rightarrow> int \<Rightarrow> int \<Rightarrow> (int \<times> int) list \<times> int \<Rightarrow> int list \<Rightarrow>
   (int \<times> int) list \<times> int" where
  "cluster_col_loop params cluster_width cluster_height cluster_grid_width cluster_row st [] = st"
| "cluster_col_loop params cluster_width cluster_height cluster_grid_width cluster_row st
     (cluster_col # rest) =
     (let cluster_x = left_margin params + cluster_col * cluster_width;
          cluster_y = bottom_margin params + cluster_row * cluster_height;
          racks_in_cluster = min (cluster_size params) (snd st)
      in if racks_in_cluster \<le> 0 then st
         else
           let cluster_grid_height =
                 (cluster_size params + cluster_grid_width - 1) div cluster_grid_width;
               st' = cluster_i_loop cluster_x cluster_y cluster_grid_width racks_in_cluster st
                       (range_py 0 (min cluster_grid_height
                          ((racks_in_cluster + cluster_grid_width - 1) div cluster_grid_width)))
           in if snd st' \<le> 0 then st'
              else cluster_col_loop params cluster_width cluster_height cluster_grid_width
                     cluster_row st' rest)"

fun cluster_row_loop ::
  "layout_params \<Rightarrow> int \<Rightarrow> int \<Rightarrow> int \<Rightarrow> int \<Rightarrow> (int \<times> int) list \<times> int \<Rightarrow> int list \<Rightarrow>
   (int \<times> int) list \<times> int" where
  "cluster_row_loop params cluster_width cluster_height cluster_grid_width clusters_per_row st []
     = st"
| "cluster_row_loop params cluster_width cluster_height cluster_grid_width clusters_per_row st
     (cluster_row # rest) =
     (let st' = cluster_col_loop params cluster_width cluster_height cluster_grid_width
                  cluster_row st (range_py 0 clusters_per_row)
      in if snd st' \<le> 0 then st'
         else cluster_row_loop params cluster_width cluster_height cluster_grid_width
                clusters_per_row st' rest)"

definition generate_cluster_layout ::
  "DataCenterGrid \<Rightarrow> int \<Rightarrow> layout_params \<Rightarrow> error + (int \<times> int) list" where
  "generate_cluster_layout g num_racks params =
     (let available_width = grid_width g - left_margin params - right_margin params;
          available_height = grid_length g - top_margin params - bottom_margin params
      in case int_sqrt (cluster_size params) of
           Inl e \<Rightarrow> Inl e
         | Inr isq \<Rightarrow>
         (let cluster_width = isq * RACK_WIDTH_CELLS + cluster_spacing params
          in case floordiv (cluster_size params + isq - 1) isq of
               Inl e \<Rightarrow> Inl e
             | Inr per_column \<Rightarrow>
             (let cluster_height = per_column * RACK_HEIGHT_CELLS + cluster_spacing params
              in case floordiv available_width cluster_width of
                   Inl e \<Rightarrow> Inl e
                 | Inr clusters_per_row \<Rightarrow>
                 (case floordiv available_height cluster_height of
                   Inl e \<Rightarrow> Inl e
                 | Inr clusters_per_col \<Rightarrow>
                 (let total_clusters = clusters_per_row * clusters_per_col;
                      total_racks_in_clusters = total_clusters * cluster_size params;
                      racks_needed = min num_racks total_racks_in_clusters
                  in Inr (fst (cluster_row_loop params cluster_width cluster_height isq
                                 clusters_per_row ([], racks_needed)
                                 (range_py 0 clusters_per_col))))))))"

subsection \<open>Circular layout\<close>

text \<open>
  The floating-point results of \<open>generate_circular_layout\<close>: \<open>ring_capacity r\<close> stands for
  \<open>int(circumference / arc_length)\<close> at radius \<open>r\<close>, and \<open>ring_point r i k\<close> for the pair
  \<open>(int(center_x + r * math.cos(angle)), int(center_y + r * math.sin(angle)))\<close> of rack
  \<open>i\<close> out of \<open>k\<close> on that ring.
\<close>

record circular_floats =
  ring_capacity :: "int \<Rightarrow> int"
  ring_point :: "int \<Rightarrow> int \<Rightarrow> int \<Rightarrow> int \<times> int"

definition circular_ring ::
  "DataCenterGrid \<Rightarrow> circular_floats \<Rightarrow> int \<Rightarrow> int \<Rightarrow> (int \<times> int) list" where
  "circular_ring g fl current_radius racks_in_ring =
     concat (map (\<lambda>i.
        let gx = fst (ring_point fl current_radius i racks_in_ring) - RACK_WIDTH_CELLS div 2;
            gy = snd (ring_point fl current_radius i racks_in_ring) - RACK_HEIGHT_CELLS div 2
        in if gx \<ge> 0 \<and> gx + RACK_WIDTH_CELLS \<le> grid_width g \<and>
              gy \<ge> 0 \<and> gy + RACK_HEIGHT_CELLS \<le> grid_length g
           then [(gx, gy)] else [])
       (range_py 0 racks_in_ring))"

text \<open>
  The \<open>while\<close> loop over the rings; \<open>racks_placed\<close> grows with the list. The loop need
  not end (the radius does not grow when \<open>spacing\<close> is \<open>-2\<close>), so the result is an option.
\<close>

partial_function (option) circular_rings ::
  "DataCenterGrid \<Rightarrow> int \<Rightarrow> layout_params \<Rightarrow> circular_floats \<Rightarrow> int \<Rightarrow> int \<Rightarrow> int \<Rightarrow>
   (int \<times> int) list \<Rightarrow> (int \<times> int) list option" where
  "circular_rings g num_racks params fl max_radius current_radius racks_placed rack_positions =
     (if current_radius \<le> max_radius \<and> racks_placed < num_racks
      then
        if min (ring_capacity fl current_radius) (num_racks - racks_placed) \<le> 0
        then Some rack_positions
        else circular_rings g num_racks params fl max_radius
               (current_radius + RACK_WIDTH_CELLS + spacing params)
               (racks_placed
                + int (length (circular_ring g fl current_radius
                         (min (ring_capacity fl current_radius) (num_racks - racks_placed)))))
               (rack_positions
                @ circular_ring g fl current_radius
                    (min (ring_capacity fl current_radius) (num_racks - racks_placed)))
      else Some rack_positions)"

definition generate_circular_layout ::
  "DataCenterGrid \<Rightarrow> int \<Rightarrow> layout_params \<Rightarrow> circular_floats \<Rightarrow> (int \<times> int) list option" where
  "generate_circular_layout g num_racks params fl =
     (let cx = (case center_x params of None \<Rightarrow> grid_width g div 2 | Some c \<Rightarrow> c);
          cy = (case center_y params of None \<Rightarrow> grid_length g div 2 | Some c \<Rightarrow> c);
          max_radius_x = min cx (grid_width g - cx) - 1;
          max_radius_y = min cy (grid_length g - cy) - 1;
          max_radius = min max_radius_x max_radius_y;
          first_radius = (if min_radius params \<ge> max_radius then max 1 (max_radius - 5)
                          else min_radius params)
      in map_option (slice_upto num_racks)
           (circular_rings g num_racks params fl max_radius first_radius 0 []))"

subsection \<open>Cooling-optimized layout\<close>

fun cooling_pair_loop ::
  "layout_params \<Rightarrow> int \<Rightarrow> int \<Rightarrow> int \<Rightarrow> (int \<times> int) list \<times> int \<Rightarrow> int list \<Rightarrow>
   (int \<times> int) list \<times> int" where
  "cooling_pair_loop params aisle_pair_width cold row_y st [] = st"
| "cooling_pair_loop params aisle_pair_width cold row_y st (aisle_pair # rest) =
     (let aisle_start_x = left_margin params + aisle_pair * aisle_pair_width;
          st1 = (fst st @ [(aisle_start_x, row_y)], snd st - 1)
      in if snd st1 \<le> 0 then st1
         else
           let st2 = (fst st1 @ [(aisle_start_x + RACK_WIDTH_CELLS + cold, row_y)], snd st1 - 1)
           in if snd st2 \<le> 0 then st2
              else cooling_pair_loop params aisle_pair_width cold row_y st2 rest)"

fun cooling_row_loop ::
  "layout_params \<Rightarrow> int \<Rightarrow> int \<Rightarrow> int \<Rightarrow> (int \<times> int) list \<times> int \<Rightarrow> int list \<Rightarrow>
   (int \<times> int) list \<times> int" where
  "cooling_row_loop params aisle_pair_width cold num_aisle_pairs st [] = st"
| "cooling_row_loop params aisle_pair_width cold num_aisle_pairs st (row # rest) =
     (let row_y = bottom_margin params + row * (RACK_HEIGHT_CELLS + row_spacing params);
          st' = cooling_pair_loop params aisle_pair_width cold row_y st
                  (range_py 0 num_aisle_pairs)
      in if snd st' \<le> 0 then st'
         else cooling_row_loop params aisle_pair_width cold num_aisle_pairs st' rest)"

definition generate_cooling_optimized_layout ::
  "DataCenterGrid \<Rightarrow> int \<Rightarrow> layout_params \<Rightarrow> error + (int \<times> int) list" where
  "generate_cooling_optimized_layout g num_racks params =
     (let available_width = grid_width g - left_margin params - right_margin params;
          available_height = grid_length g - top_margin params - bottom_margin params;
          aisle_pair_width = 2 * RACK_WIDTH_CELLS + cold_aisle_width params
                               + hot_aisle_width params
      in case floordiv available_width aisle_pair_width of
           Inl e \<Rightarrow> Inl e
         | Inr pairs_fit \<Rightarrow>
         (let cold = (if pairs_fit = 0
                      then max 2 ((available_width - 2 * RACK_WIDTH_CELLS) div 2)
                      else cold_aisle_width params);
              num_aisle_pairs = (if pairs_fit = 0 then 1 else pairs_fit);
              racks_per_row = num_aisle_pairs * 2;
              rows_for_count = (num_racks + racks_per_row - 1) div racks_per_row;
              total_height_needed =
                rows_for_count * (RACK_HEIGHT_CELLS + row_spacing params) - row_spacing params
          in case (if total_height_needed > available_height
                   then floordiv available_height (RACK_HEIGHT_CELLS + row_spacing params)
                   else Inr rows_for_count) of
               Inl e \<Rightarrow> Inl e
             | Inr rows_needed \<Rightarrow>
                 Inr (slice_upto num_racks
                        (fst (cooling_row_loop params aisle_pair_width cold num_aisle_pairs
                                ([], num_racks) (range_py 0 rows_needed))))))"

subsection \<open>High-density zones layout\<close>

text \<open>
  \<open>high_density_count\<close> stands for the floating-point
  \<open>int(num_racks * high_density_pct / 100)\<close> and \<open>high_density_width\<close> for
  \<open>int(available_width * (high_density_count / num_racks) * 1.5)\<close>; the division in the
  latter raises ZeroDivisionError when \<open>num_racks\<close> is 0.
\<close>

definition generate_high_density_zones_layout ::
  "DataCenterGrid \<Rightarrow> int \<Rightarrow> layout_params \<Rightarrow> int \<Rightarrow> int \<Rightarrow> error + (int \<times> int) list" where
  "generate_high_density_zones_layout g num_racks params high_density_count high_density_width =
     (let low_density_count = num_racks - high_density_count;
          available_width = grid_width g - left_margin params - right_margin params;
          available_height = grid_length g - top_margin params - bottom_margin params
      in if num_racks = 0 then Inl ZeroDivisionError
         else
           let low_density_width = available_width - high_density_width
           in case floordiv high_density_width
                     (RACK_WIDTH_CELLS + high_density_spacing params) of
                Inl e \<Rightarrow> Inl e
              | Inr hd_fit \<Rightarrow>
                  let hd_racks_per_row = (if hd_fit \<le> 0 then 1 else hd_fit);
                      hd_rows_needed =
                        (high_density_count + hd_racks_per_row - 1) div hd_racks_per_row;
                      hd_positions = concat (map (\<lambda>row.
                         map (\<lambda>col.
                           (left_margin params
                              + col * (RACK_WIDTH_CELLS + high_density_spacing params),
                            bottom_margin params
                              + row * (RACK_HEIGHT_CELLS + high_density_spacing params)))
                           (range_py 0 (min hd_racks_per_row
                              (high_density_count - row * hd_racks_per_row))))
                         (range_py 0 hd_rows_needed));
                      ld_fit = low_density_width div RACK_WIDTH_CELLS;
                      ld_racks_per_row = (if ld_fit \<le> 0 then 1 else ld_fit);
                      ld_rows_needed =
                        (low_density_count + ld_racks_per_row - 1) div ld_racks_per_row;
                      ld_positions = concat (map (\<lambda>row.
                         map (\<lambda>col.
                           (left_margin params + high_density_width + col * RACK_WIDTH_CELLS,
                            bottom_margin params + row * (RACK_HEIGHT_CELLS + 1)))
                           (range_py 0 (min ld_racks_per_row
                              (low_density_count - row * ld_racks_per_row))))
                         (range_py 0 ld_rows_needed))
                  in Inr (slice_upto num_racks (hd_positions @ ld_positions)))"

subsection \<open>Loop invariants and sample parameters\<close>

text \<open>The default parameters without margins, for the examples.\<close>

definition no_margins :: layout_params where
  "no_margins = default_params\<lparr>left_margin := 0, right_margin := 0, top_margin := 0, bottom_margin := 0\<rparr>"

text \<open>
  The state of the pod loops: the counter is the length of the list and never exceeds
  \<open>racks_to_place\<close>, unless that is negative.
\<close>

definition counted :: "int \<Rightarrow> (int \<times> int) list \<times> int \<Rightarrow> bool" where
  "counted limit st \<longleftrightarrow> snd st = int (length (fst st)) \<and> snd st \<le> max 0 limit"

text \<open>
  The state of the spine-leaf and cluster loops: list length and \<open>racks_needed\<close> add up
  to the initial count, and nothing has been appended while \<open>racks_needed\<close> was not
  positive.
\<close>

definition needed :: "int \<Rightarrow> (int \<times> int) list \<times> int \<Rightarrow> bool" where
  "needed tot st \<longleftrightarrow>
     int (length (fst st)) + snd st = tot \<and> (0 \<le> snd st \<or> fst st = [])"

text \<open>Sample values for the floating-point results, for the examples.\<close>

definition sample_diagonal :: "error + diagonal_floats" where
  "sample_diagonal =
     Inr \<lparr>racks_per_diagonal = 4, diagonal_rows = 3,
          x_offset = (\<lambda>row i. 3 * row + 2 * i), y_offset = (\<lambda>i. i)\<rparr>"

definition sample_circular :: circular_floats where
  "sample_circular =
     \<lparr>ring_capacity = (\<lambda>r. 3 * r),
      ring_point = (\<lambda>r i k. (5 + r - (2 * r * i) div k, 5 + (r * i) div k))\<rparr>"

section \<open>rack\_layout\_optimizer.py: generating, scoring and comparing layouts\<close>

abbreviation LAYOUT_STANDARD :: string where "LAYOUT_STANDARD \<equiv> ''standard''"
abbreviation LAYOUT_HOT_COLD :: string where "LAYOUT_HOT_COLD \<equiv> ''hot_cold_aisle''"
abbreviation LAYOUT_DIAGONAL :: string where "LAYOUT_DIAGONAL \<equiv> ''diagonal''"
abbreviation LAYOUT_PERIMETER :: string where "LAYOUT_PERIMETER \<equiv> ''perimeter''"
abbreviation LAYOUT_PODS :: string where "LAYOUT_PODS \<equiv> ''pods''"

text \<open>
  One value of the dictionary \<open>layout_metrics\<close>. The dictionary itself is an association
  list in insertion order: storing under an existing key keeps the key's place, a new
  key goes to the end.
\<close>

record metrics_entry =
  racks_placed :: nat
  space_utilization :: rat
  parameters :: layout_params

record RackLayoutOptimizer =
  opt_grid :: DataCenterGrid
  layout_metrics :: "(string \<times> metrics_entry) list"

definition RackLayoutOptimizer_init :: "DataCenterGrid \<Rightarrow> RackLayoutOptimizer" where
  "RackLayoutOptimizer_init datacenter_grid =
     \<lparr>opt_grid = datacenter_grid, layout_metrics = []\<rparr>"

text \<open>Python's true division of integers, with exact arithmetic.\<close>

definition truediv :: "int \<Rightarrow> int \<Rightarrow> error + rat" where
  "truediv a b = (if b = 0 then Inl ZeroDivisionError else Inr (of_int a / of_int b))"

definition calculate_metrics ::
  "RackLayoutOptimizer \<Rightarrow> string \<Rightarrow> element list \<Rightarrow> layout_params \<Rightarrow>
   error + RackLayoutOptimizer" where
  "calculate_metrics opt layout_type rs params =
     (let placed = length rs;
          total_space = grid_width (opt_grid opt) * grid_length (opt_grid opt);
          rack_space = sum_list (map (\<lambda>rack. width_cells rack * height_cells rack) rs)
      in case (if total_space > 0 then truediv rack_space total_space else Inr 0) of
           Inl e \<Rightarrow> Inl e
         | Inr utilization \<Rightarrow>
             Inr (opt\<lparr>layout_metrics :=
                    AList.update layout_type
                      \<lparr>racks_placed = placed, space_utilization = utilization,
                       parameters = params\<rparr>
                      (layout_metrics opt)\<rparr>))"

text \<open>
  The dispatch of \<open>generate_layout\<close> on the layout type. \<open>None\<close> stands for a perimeter
  loop that does not end; an unknown type raises ValueError.
\<close>

definition layout_positions ::
  "DataCenterGrid \<Rightarrow> string \<Rightarrow> int \<Rightarrow> layout_params \<Rightarrow> error + diagonal_floats \<Rightarrow>
   (error + (int \<times> int) list) option" where
  "layout_positions g layout_type num_racks params dfl =
     (if layout_type = LAYOUT_STANDARD then Some (generate_standard_layout g num_racks params)
      else if layout_type = LAYOUT_HOT_COLD
        then Some (generate_hot_cold_layout g num_racks params)
      else if layout_type = LAYOUT_DIAGONAL
        then Some (generate_diagonal_layout g num_racks params dfl)
      else if layout_type = LAYOUT_PERIMETER
        then map_option Inr (generate_perimeter_layout g num_racks params)
      else if layout_type = LAYOUT_PODS then Some (generate_pod_layout g num_racks params)
      else Some (Inl ValueError))"

text \<open>
  \<open>generate_layout\<close> returns the candidate list or the exception raised, with the
  optimizer as the call leaves it: \<open>compare_layouts\<close> catches the exception and goes on
  with that state. \<open>params\<close> is the default dictionary updated with the keyword
  arguments.
\<close>

definition generate_layout ::
  "RackLayoutOptimizer \<Rightarrow> string \<Rightarrow> int \<Rightarrow> layout_params \<Rightarrow> error + diagonal_floats \<Rightarrow>
   ((error + (int \<times> int) list) \<times> RackLayoutOptimizer) option" where
  "generate_layout opt layout_type num_racks params dfl =
     (let cleared = opt\<lparr>opt_grid := clear_racks (opt_grid opt)\<rparr>
      in case layout_positions (opt_grid cleared) layout_type num_racks params dfl of
           None \<Rightarrow> None
         | Some (Inl e) \<Rightarrow> Some (Inl e, cleared)
         | Some (Inr rack_positions) \<Rightarrow>
             (case place_racks (opt_grid cleared) rack_positions of
                Inl (e, placed, g') \<Rightarrow> Some (Inl e, cleared\<lparr>opt_grid := g'\<rparr>)
              | Inr (placed, g') \<Rightarrow>
                  (case calculate_metrics (cleared\<lparr>opt_grid := g'\<rparr>) layout_type placed params of
                     Inl e \<Rightarrow> Some (Inl e, cleared\<lparr>opt_grid := g'\<rparr>)
                   | Inr opt' \<Rightarrow> Some (Inr rack_positions, opt'))))"

text \<open>
  The loop of \<open>compare_layouts\<close> (with \<open>plot=False\<close>) over the layout types: an exception
  in \<open>generate_layout\<close> is caught and the next type is tried. \<open>results\<close> holds what
  \<open>layout_metrics.get(layout_type, {})\<close> gives, \<open>None\<close> for the empty dictionary.
\<close>

fun compare_loop ::
  "RackLayoutOptimizer \<Rightarrow> (string \<times> metrics_entry option) list \<Rightarrow> int \<Rightarrow>
   error + diagonal_floats \<Rightarrow> string list \<Rightarrow>
   ((string \<times> metrics_entry option) list \<times> RackLayoutOptimizer) option" where
  "compare_loop opt results num_racks dfl [] = Some (results, opt)"
| "compare_loop opt results num_racks dfl (layout_type # rest) =
     (case generate_layout opt layout_type num_racks default_params dfl of
        None \<Rightarrow> None
      | Some (Inl e, opt') \<Rightarrow> compare_loop opt' results num_racks dfl rest
      | Some (Inr rack_positions, opt') \<Rightarrow>
          compare_loop opt'
            (AList.update layout_type (map_of (layout_metrics opt') layout_type) results)
            num_racks dfl rest)"

definition compare_layouts ::
  "RackLayoutOptimizer \<Rightarrow> int \<Rightarrow> error + diagonal_floats \<Rightarrow>
   ((string \<times> metrics_entry option) list \<times> RackLayoutOptimizer) option" where
  "compare_layouts opt num_racks dfl =
     compare_loop opt [] num_racks dfl
       [LAYOUT_STANDARD, LAYOUT_HOT_COLD, LAYOUT_DIAGONAL, LAYOUT_PERIMETER, LAYOUT_PODS]"

text \<open>
  \<open>metrics[metric]\<close> when \<open>metric in metrics\<close>: the two numbers, and the parameter
  dictionary, whose comparison with a number raises TypeError.
\<close>

definition metric_value :: "string \<Rightarrow> metrics_entry \<Rightarrow> (error + rat) option" where
  "metric_value metric m =
     (if metric = ''racks_placed'' then Some (Inr (of_nat (racks_placed m)))
      else if metric = ''space_utilization'' then Some (Inr (space_utilization m))
      else if metric = ''parameters'' then Some (Inl TypeError)
      else None)"

text \<open>The scan of \<open>get_best_layout\<close>, with \<open>best_layout\<close> and \<open>best_value\<close> so far.\<close>

fun best_scan ::
  "string \<Rightarrow> string option \<times> rat \<Rightarrow> (string \<times> metrics_entry) list \<Rightarrow>
   error + string option \<times> rat" where
  "best_scan metric best [] = Inr best"
| "best_scan metric best ((layout_type, m) # rest) =
     (case metric_value metric m of
        None \<Rightarrow> best_scan metric best rest
      | Some (Inl e) \<Rightarrow> Inl e
      | Some (Inr v) \<Rightarrow>
          if v > snd best then best_scan metric (Some layout_type, v) rest
          else best_scan metric best rest)"

definition get_best_layout ::
  "RackLayoutOptimizer \<Rightarrow> int \<Rightarrow> string \<Rightarrow> error + diagonal_floats \<Rightarrow>
   ((error + string option \<times> metrics_entry option) \<times> RackLayoutOptimizer) option" where
  "get_best_layout opt num_racks metric dfl =
     (case (if length (layout_metrics opt) < 5
            then map_option snd (compare_layouts opt num_racks dfl)
            else Some opt) of
        None \<Rightarrow> None
      | Some opt' \<Rightarrow>
          (case best_scan metric (None, - 1) (layout_metrics opt') of
             Inl e \<Rightarrow> Some (Inl e, opt')
           | Inr (best_layout, best_value) \<Rightarrow>
               Some (Inr (best_layout,
                          case best_layout of
                            None \<Rightarrow> None
                          | Some k \<Rightarrow> map_of (layout_metrics opt') k),
                     opt')))"

text \<open>
  The score of a layout with \<open>k\<close> placed racks of 2 by 1 cells, and the state of the
  metrics dictionary that \<open>calculate_metrics\<close> maintains: keys are unique, each entry
  carries the score of its own rack count, and racks are only ever counted on a grid
  that has cells.
\<close>

definition utilization_of :: "DataCenterGrid \<Rightarrow> nat \<Rightarrow> rat" where
  "utilization_of g k =
     (if grid_width g * grid_length g > 0
      then of_int (RACK_WIDTH_CELLS * RACK_HEIGHT_CELLS * int k)
             / of_int (grid_width g * grid_length g)
      else 0)"

definition entry_ok :: "DataCenterGrid \<Rightarrow> metrics_entry \<Rightarrow> bool" where
  "entry_ok g m \<longleftrightarrow>
     space_utilization m = utilization_of g (racks_placed m) \<and>
     (racks_placed m = 0 \<or> grid_width g * grid_length g > 0)"

definition metrics_ok :: "RackLayoutOptimizer \<Rightarrow> bool" where
  "metrics_ok opt \<longleftrightarrow>
     distinct (map fst (layout_metrics opt)) \<and>
     list_all (\<lambda>km. entry_ok (opt_grid opt) (snd km)) (layout_metrics opt)"

definition rack_sized :: "element \<Rightarrow> bool" where
  "rack_sized e \<longleftrightarrow> width_cells e = RACK_WIDTH_CELLS \<and> height_cells e = RACK_HEIGHT_CELLS"

section \<open>Properties of the grid\<close>

lemma np_get_in_range: "in_range a y x \<Longrightarrow> np_get a y x = Inr (a ! nat y ! nat x)"
  by (simp add: in_range_def np_get_def np_index_def)

lemma np_set_in_range:
  "in_range a y x \<Longrightarrow> np_set a y x v = Inr (a[nat y := (a ! nat y)[nat x := v]])"
  by (simp add: in_range_def np_set_def np_index_def)

lemma set_range_py: "set (range_py a b) = {i. a \<le> i \<and> i < b}"
  by (auto simp: range_py_def)

lemma set_area_cells: "set (area_cells gx gy w h) = {(cy, cx). in_rect gx gy w h cx cy}"
  by (auto simp: area_cells_def set_range_py in_rect_def)

lemma shape_ok_in_range:
  "shape_ok g \<Longrightarrow> 0 \<le> cy \<Longrightarrow> cy < grid_length g \<Longrightarrow> 0 \<le> cx \<Longrightarrow> cx < grid_width g
   \<Longrightarrow> in_range (grid g) cy cx"
  by (auto simp: shape_ok_def in_range_def list_all_length)

lemma all_empty_in_range:
  "\<forall>(y, x) \<in> set cs. in_range a y x \<Longrightarrow>
   all_empty a cs = Inr (\<forall>(y, x) \<in> set cs. a ! nat y ! nat x = 0)"
  by (induction cs) (auto simp: np_get_in_range)

lemma in_range_update:
  "in_range (a[r := (a ! r)[c := v]]) y x = in_range a y x"
  by (cases "r < length a"; cases "nat y = r") (auto simp: in_range_def)

lemma mark_cells_in_range:
  "\<forall>(y, x) \<in> set cs. in_range a y x \<Longrightarrow>
   \<exists>a'. mark_cells a cs t = Inr a' \<and> length a' = length a \<and>
        (\<forall>r < length a. length (a' ! r) = length (a ! r)) \<and>
        (\<forall>y x. in_range a y x \<longrightarrow>
           a' ! nat y ! nat x = (if (y, x) \<in> set cs then t else a ! nat y ! nat x))"
proof (induction cs arbitrary: a)
  case Nil
  then show ?case by simp
next
  case (Cons c cs)
  obtain y x where c: "c = (y, x)" by (cases c)
  let ?b = "a[nat y := (a ! nat y)[nat x := t]]"
  from Cons.prems c have yx: "in_range a y x" by simp
  have step: "mark_cells a (c # cs) t = mark_cells ?b cs t"
    using yx by (simp add: c np_set_in_range)
  have "\<forall>(y, x) \<in> set cs. in_range ?b y x"
    using Cons.prems by (auto simp: in_range_update)
  from Cons.IH[OF this] obtain a' where a': "mark_cells ?b cs t = Inr a'"
    "length a' = length ?b" "\<forall>r < length ?b. length (a' ! r) = length (?b ! r)"
    "\<forall>y x. in_range ?b y x \<longrightarrow>
           a' ! nat y ! nat x = (if (y, x) \<in> set cs then t else ?b ! nat y ! nat x)"
    by blast
  have len: "\<forall>r < length a. length (a' ! r) = length (a ! r)"
  proof (intro allI impI)
    fix r assume "r < length a"
    then show "length (a' ! r) = length (a ! r)"
      using a'(3) by (cases "r = nat y") auto
  qed
  have vals: "\<forall>y' x'. in_range a y' x' \<longrightarrow>
           a' ! nat y' ! nat x' = (if (y', x') \<in> set (c # cs) then t else a ! nat y' ! nat x')"
  proof (intro allI impI)
    fix y' x' assume r: "in_range a y' x'"
    then have "a' ! nat y' ! nat x' = (if (y', x') \<in> set cs then t else ?b ! nat y' ! nat x')"
      using a'(4) by (simp add: in_range_update)
    moreover have "?b ! nat y' ! nat x' = (if (y', x') = (y, x) then t else a ! nat y' ! nat x')"
      using r yx by (cases "nat y' = nat y"; cases "nat x' = nat x") (auto simp: in_range_def)
    ultimately show "a' ! nat y' ! nat x' = (if (y', x') \<in> set (c # cs) then t else a ! nat y' ! nat x')"
      by (auto simp: c)
  qed
  show ?case using step a'(1,2) len vals by auto
qed

text \<open>
  Reading a cell and writing it fail on the same indices, and a write keeps the shape
  of the array: once \<open>is_area_empty\<close> has read every cell of a rectangle, marking the
  rectangle cannot raise.
\<close>

lemma np_set_succeeds_iff: "isl (np_set a y x v) \<longleftrightarrow> isl (np_get a y x)"
  by (simp add: np_set_def np_get_def split: option.splits)

lemma np_get_same_shape:
  assumes "map length a = map length b"
  shows "isl (np_get a y x) \<longleftrightarrow> isl (np_get b y x)"
proof -
  from assms have len: "length a = length b" by (metis length_map)
  have row: "length (a ! r) = length (b ! r)" if "r < length a" for r
    using that assms len by (metis nth_map)
  have "np_index (length a) y = Some r \<Longrightarrow> r < length a" for r
    by (auto simp: np_index_def split: if_splits)
  then show ?thesis
    using row by (auto simp: np_get_def len[symmetric] split: option.splits)
qed

lemma np_set_shape: "np_set a y x v = Inr b \<Longrightarrow> map length b = map length a"
proof -
  have upd: "map length (a[r := (a ! r)[c := v]]) = map length a" for r c
  proof (cases "r < length a")
    case True
    then show ?thesis by (simp add: map_update list_update_same_conv)
  next
    case False
    then have "length a \<le> r" by linarith
    then have "a[r := (a ! r)[c := v]] = a" by (rule list_update_beyond)
    then show ?thesis by (rule arg_cong)
  qed
  show "np_set a y x v = Inr b \<Longrightarrow> map length b = map length a"
    by (auto simp: np_set_def upd split: option.splits)
qed

lemma mark_cells_after_reads:
  "\<forall>c \<in> set cs. \<not> isl (np_get a (fst c) (snd c)) \<Longrightarrow> \<not> isl (mark_cells a cs t)"
proof (induction cs arbitrary: a)
  case Nil
  then show ?case by simp
next
  case (Cons c cs)
  obtain y x where c: "c = (y, x)" by (cases c)
  from Cons.prems have "\<not> isl (np_set a y x t)"
    by (simp add: c np_set_succeeds_iff)
  then obtain b where b: "np_set a y x t = Inr b" by (cases "np_set a y x t") auto
  have "\<forall>c \<in> set cs. \<not> isl (np_get b (fst c) (snd c))"
    using Cons.prems np_get_same_shape[OF np_set_shape[OF b]] by simp
  from Cons.IH[OF this] show ?case by (simp add: c b)
qed

lemma all_empty_reads:
  "all_empty a cs = Inr True \<Longrightarrow> \<forall>c \<in> set cs. \<not> isl (np_get a (fst c) (snd c))"
proof (induction cs)
  case Nil
  then show ?case by simp
next
  case (Cons c cs)
  obtain y x where c: "c = (y, x)" by (cases c)
  from Cons.prems obtain v where v: "np_get a y x = Inr v" and rest: "all_empty a cs = Inr True"
    by (auto simp: c split: sum.splits if_splits)
  with Cons.IH show ?case by (simp add: c)
qed

lemma mark_cells_after_all_empty:
  "all_empty a cs = Inr True \<Longrightarrow> \<not> isl (mark_cells a cs t)"
  by (rule mark_cells_after_reads) (rule all_empty_reads)

lemma place_element_raises_unchanged:
  "place_element g x y w h t = Inl e \<Longrightarrow> is_area_empty g x y w h = Inl e"
proof (cases "is_area_empty g x y w h")
  case (Inl e')
  then show "place_element g x y w h t = Inl e \<Longrightarrow> ?thesis"
    by (simp add: place_element_def)
next
  case (Inr b)
  show "place_element g x y w h t = Inl e \<Longrightarrow> ?thesis"
  proof (cases b)
    case False
    then show "place_element g x y w h t = Inl e \<Longrightarrow> ?thesis"
      using Inr by (simp add: place_element_def)
  next
    case True
    then have "all_empty (grid g) (area_cells x y w h) = Inr True"
      using Inr by (simp add: is_area_empty_def split: if_splits)
    from mark_cells_after_all_empty[OF this, of t]
    show "place_element g x y w h t = Inl e \<Longrightarrow> ?thesis"
      using Inr True
      by (auto simp: place_element_def get_real_coordinates_def split: sum.splits)
  qed
qed

lemma is_within_grid_iff:
  "is_within_grid g x y w h \<longleftrightarrow> 0 \<le> x \<and> 0 \<le> y \<and> x + w \<le> grid_width g \<and> y + h \<le> grid_length g"
  by (auto simp: is_within_grid_def)

lemma area_cells_in_range:
  assumes "shape_ok g" "is_within_grid g x y w h"
  shows "\<forall>(cy, cx) \<in> set (area_cells x y w h). in_range (grid g) cy cx"
  using assms
  by (auto simp: set_area_cells in_rect_def is_within_grid_iff intro!: shape_ok_in_range)

lemma is_area_empty_value:
  assumes "shape_ok g"
  shows "is_area_empty g x y w h =
         Inr (is_within_grid g x y w h \<and>
              (\<forall>(cy, cx) \<in> set (area_cells x y w h). grid g ! nat cy ! nat cx = 0))"
proof (cases "is_within_grid g x y w h")
  case True
  then show ?thesis
    using all_empty_in_range[OF area_cells_in_range[OF assms True]]
    by (simp add: is_area_empty_def)
next
  case False
  then show ?thesis by (simp add: is_area_empty_def)
qed

lemma place_element_success:
  assumes ok: "shape_ok g" and free: "is_area_empty g x y w h = Inr True"
  shows "\<exists>e a. place_element g x y w h t = Inr (Some e, g\<lparr>grid := a\<rparr>) \<and>
           shape_ok (g\<lparr>grid := a\<rparr>) \<and>
           grid_x e = x \<and> grid_y e = y \<and> width_cells e = w \<and> height_cells e = h \<and>
           el_type e = t \<and>
           (\<forall>cy cx. in_range (grid g) cy cx \<longrightarrow>
              a ! nat cy ! nat cx = (if in_rect x y w h cx cy then t else grid g ! nat cy ! nat cx))"
proof -
  from free ok have within: "is_within_grid g x y w h"
    by (simp add: is_area_empty_value)
  from mark_cells_in_range[OF area_cells_in_range[OF ok within], of t]
  obtain a where a: "mark_cells (grid g) (area_cells x y w h) t = Inr a"
    "length a = length (grid g)"
    "\<forall>r < length (grid g). length (a ! r) = length (grid g ! r)"
    "\<forall>cy cx. in_range (grid g) cy cx \<longrightarrow>
       a ! nat cy ! nat cx =
       (if (cy, cx) \<in> set (area_cells x y w h) then t else grid g ! nat cy ! nat cx)"
    by blast
  have shape: "shape_ok (g\<lparr>grid := a\<rparr>)"
    using ok a(2,3) by (auto simp: shape_ok_def list_all_length)
  show ?thesis
    using free a(1,4) shape
    by (auto simp: place_element_def get_real_coordinates_def set_area_cells)
qed

lemma get_shape_ok:
  "shape_ok g \<Longrightarrow> 0 \<le> cy \<Longrightarrow> cy < grid_length g \<Longrightarrow> 0 \<le> cx \<Longrightarrow> cx < grid_width g
   \<Longrightarrow> np_get (grid g) cy cx = Inr (grid g ! nat cy ! nat cx)"
  by (simp add: np_get_in_range shape_ok_in_range)

text \<open>
  Claim C1, as the code has it. On a grid whose array has the constructor's shape,
  \<open>is_area_empty\<close> never raises. If it is false, \<open>place_element\<close> returns \<open>None\<close> and
  the grid is unchanged. If it is true, \<open>place_element\<close> returns an element record for
  the rectangle, writes only the array, and every cell of the grid holds the given type
  if it lies in \<open>[x, x+w) \<times> [y, y+h)\<close> and its old value otherwise. When moreover
  \<open>w > 0\<close>, \<open>h > 0\<close> and the type is not EMPTY, the rectangle is no longer free and the
  identical placement returns \<open>None\<close>.
\<close>

theorem place_element_check_and_set:
  assumes "shape_ok g"
  shows "(\<exists>b. is_area_empty g x y w h = Inr b) \<and>
         (is_area_empty g x y w h = Inr False \<longrightarrow> place_element g x y w h t = Inr (None, g)) \<and>
         (is_area_empty g x y w h = Inr True \<longrightarrow>
            (\<exists>e a. place_element g x y w h t = Inr (Some e, g\<lparr>grid := a\<rparr>) \<and>
               shape_ok (g\<lparr>grid := a\<rparr>) \<and>
               grid_x e = x \<and> grid_y e = y \<and> width_cells e = w \<and> height_cells e = h \<and>
               el_type e = t \<and>
               (\<forall>cx cy. 0 \<le> cx \<and> cx < grid_width g \<and> 0 \<le> cy \<and> cy < grid_length g \<longrightarrow>
                  np_get a cy cx =
                  (if in_rect x y w h cx cy then Inr t else np_get (grid g) cy cx)) \<and>
               (0 < w \<and> 0 < h \<and> t \<noteq> EMPTY \<longrightarrow>
                  is_area_empty (g\<lparr>grid := a\<rparr>) x y w h = Inr False \<and>
                  place_element (g\<lparr>grid := a\<rparr>) x y w h t = Inr (None, g\<lparr>grid := a\<rparr>))))"
proof (intro conjI impI)
  show "\<exists>b. is_area_empty g x y w h = Inr b"
    using is_area_empty_value[OF assms] by blast
next
  assume "is_area_empty g x y w h = Inr False"
  then show "place_element g x y w h t = Inr (None, g)"
    by (simp add: place_element_def)
next
  assume free: "is_area_empty g x y w h = Inr True"
  from place_element_success[OF assms free, of t]
  obtain e a where ea: "place_element g x y w h t = Inr (Some e, g\<lparr>grid := a\<rparr>)"
    "shape_ok (g\<lparr>grid := a\<rparr>)"
    "grid_x e = x" "grid_y e = y" "width_cells e = w" "height_cells e = h" "el_type e = t"
    "\<forall>cy cx. in_range (grid g) cy cx \<longrightarrow>
       a ! nat cy ! nat cx = (if in_rect x y w h cx cy then t else grid g ! nat cy ! nat cx)"
    by blast
  let ?g' = "g\<lparr>grid := a\<rparr>"
  from free assms have within: "is_within_grid g x y w h"
    by (simp add: is_area_empty_value)
  have cells: "\<forall>cx cy. 0 \<le> cx \<and> cx < grid_width g \<and> 0 \<le> cy \<and> cy < grid_length g \<longrightarrow>
          np_get a cy cx = (if in_rect x y w h cx cy then Inr t else np_get (grid g) cy cx)"
  proof (intro allI impI)
    fix cx cy assume b: "0 \<le> cx \<and> cx < grid_width g \<and> 0 \<le> cy \<and> cy < grid_length g"
    then have r: "in_range (grid g) cy cx" using assms by (simp add: shape_ok_in_range)
    have "np_get a cy cx = Inr (a ! nat cy ! nat cx)"
      using get_shape_ok[OF ea(2), of cy cx] b by simp
    moreover have "np_get (grid g) cy cx = Inr (grid g ! nat cy ! nat cx)"
      using r by (rule np_get_in_range)
    ultimately show "np_get a cy cx =
        (if in_rect x y w h cx cy then Inr t else np_get (grid g) cy cx)"
      using ea(8) r by simp
  qed
  have again: "0 < w \<and> 0 < h \<and> t \<noteq> EMPTY \<longrightarrow>
        is_area_empty ?g' x y w h = Inr False \<and>
        place_element ?g' x y w h t = Inr (None, ?g')"
  proof
    assume pos: "0 < w \<and> 0 < h \<and> t \<noteq> EMPTY"
    have mem: "(y, x) \<in> set (area_cells x y w h)"
      using pos by (simp add: set_area_cells in_rect_def)
    have "in_range (grid g) y x"
      using area_cells_in_range[OF assms within] mem by blast
    then have "a ! nat y ! nat x = t"
      using ea(8) pos by (simp add: in_rect_def)
    then have "\<not> (\<forall>(cy, cx) \<in> set (area_cells x y w h). grid ?g' ! nat cy ! nat cx = 0)"
      using mem pos by auto
    then have f: "is_area_empty ?g' x y w h = Inr False"
      using is_area_empty_value[OF ea(2), of x y w h] by simp
    then show "is_area_empty ?g' x y w h = Inr False \<and>
        place_element ?g' x y w h t = Inr (None, ?g')"
      by (simp add: place_element_def)
  qed
  show "\<exists>e a. place_element g x y w h t = Inr (Some e, g\<lparr>grid := a\<rparr>) \<and>
               shape_ok (g\<lparr>grid := a\<rparr>) \<and>
               grid_x e = x \<and> grid_y e = y \<and> width_cells e = w \<and> height_cells e = h \<and>
               el_type e = t \<and>
               (\<forall>cx cy. 0 \<le> cx \<and> cx < grid_width g \<and> 0 \<le> cy \<and> cy < grid_length g \<longrightarrow>
                  np_get a cy cx =
                  (if in_rect x y w h cx cy then Inr t else np_get (grid g) cy cx)) \<and>
               (0 < w \<and> 0 < h \<and> t \<noteq> EMPTY \<longrightarrow>
                  is_area_empty (g\<lparr>grid := a\<rparr>) x y w h = Inr False \<and>
                  place_element (g\<lparr>grid := a\<rparr>) x y w h t = Inr (None, g\<lparr>grid := a\<rparr>))"
    using ea(1-7) cells again by blast
qed

theorem place_element_check_and_set_witness:
  "shape_ok room_10x10 \<and> is_area_empty room_10x10 0 0 2 1 = Inr True \<and>
   (\<exists>e a. place_element room_10x10 0 0 2 1 RACK = Inr (Some e, room_10x10\<lparr>grid := a\<rparr>) \<and>
      np_get a 0 1 = Inr RACK \<and>
      place_element (room_10x10\<lparr>grid := a\<rparr>) 0 0 2 1 RACK = Inr (None, room_10x10\<lparr>grid := a\<rparr>))"
proof -
  have ok: "shape_ok room_10x10"
    unfolding room_10x10_def by code_simp
  have free: "is_area_empty room_10x10 0 0 2 1 = Inr True"
    unfolding room_10x10_def by code_simp
  have dims: "grid_width room_10x10 = 10" "grid_length room_10x10 = 10"
    unfolding room_10x10_def by code_simp+
  from place_element_check_and_set[OF ok, of 0 0 2 1 RACK] free
  obtain e a where ea: "place_element room_10x10 0 0 2 1 RACK = Inr (Some e, room_10x10\<lparr>grid := a\<rparr>)"
    "\<forall>cx cy. 0 \<le> cx \<and> cx < grid_width room_10x10 \<and> 0 \<le> cy \<and> cy < grid_length room_10x10 \<longrightarrow>
        np_get a cy cx = (if in_rect 0 0 2 1 cx cy then Inr RACK else np_get (grid room_10x10) cy cx)"
    "place_element (room_10x10\<lparr>grid := a\<rparr>) 0 0 2 1 RACK = Inr (None, room_10x10\<lparr>grid := a\<rparr>)"
    by auto
  from ea(2) have "np_get a 0 1 = Inr RACK"
    by (simp add: dims in_rect_def)
  with ok free ea(1,3) show ?thesis by blast
qed

text \<open>
  Claim C1 as stated fails for a rectangle without cells: a 0 by 0 pillar (what a
  100 mm pillar is on a 600 mm grid) is "placed" without marking a cell, the rectangle
  is still free afterwards, and the identical placement succeeds a second time.
\<close>

theorem place_element_zero_size_counterexample:
  "is_area_empty room_10x10 0 0 0 0 = Inr True \<and>
   fst (projr (place_element room_10x10 0 0 0 0 PILLAR)) \<noteq> None \<and>
   snd (projr (place_element room_10x10 0 0 0 0 PILLAR)) = room_10x10 \<and>
   is_area_empty (snd (projr (place_element room_10x10 0 0 0 0 PILLAR))) 0 0 0 0 = Inr True \<and>
   fst (projr (place_element (snd (projr (place_element room_10x10 0 0 0 0 PILLAR))) 0 0 0 0 PILLAR))
     \<noteq> None"
  unfolding room_10x10_def by code_simp

lemma place_element_lists:
  "place_element g x y w h t = Inr (r, g') \<Longrightarrow>
   pillars g' = pillars g \<and> racks g' = racks g \<and> walls g' = walls g \<and>
   support_rooms g' = support_rooms g"
  by (auto simp: place_element_def get_real_coordinates_def split: sum.splits bool.splits)

text \<open>
  Claim C10. \<open>place_element\<close> writes none of the four element lists. After a successful
  call with a non-EMPTY type, a cell of the rectangle that no listed element covered
  before holds the type and is still covered by no listed element: registering the
  returned record is left to the caller.
\<close>

theorem place_element_registers_nothing:
  assumes "shape_ok g" and "place_element g x y w h t = Inr (r, g')"
  shows "pillars g' = pillars g \<and> racks g' = racks g \<and> walls g' = walls g \<and>
         support_rooms g' = support_rooms g \<and>
         (\<forall>cx cy. r \<noteq> None \<and> t \<noteq> EMPTY \<and> in_rect x y w h cx cy \<and> \<not> listed g cx cy \<longrightarrow>
            np_get (grid g') cy cx = Inr t \<and> \<not> listed g' cx cy)"
proof -
  have lists: "pillars g' = pillars g \<and> racks g' = racks g \<and> walls g' = walls g \<and>
         support_rooms g' = support_rooms g"
    using assms(2) by (rule place_element_lists)
  have occ: "\<forall>cx cy. r \<noteq> None \<and> t \<noteq> EMPTY \<and> in_rect x y w h cx cy \<and> \<not> listed g cx cy \<longrightarrow>
            np_get (grid g') cy cx = Inr t \<and> \<not> listed g' cx cy"
  proof (intro allI impI)
    fix cx cy
    assume a: "r \<noteq> None \<and> t \<noteq> EMPTY \<and> in_rect x y w h cx cy \<and> \<not> listed g cx cy"
    have free: "is_area_empty g x y w h = Inr True"
      using assms(2) a by (auto simp: place_element_def split: sum.splits bool.splits)
    then have within: "is_within_grid g x y w h"
      using assms(1) by (simp add: is_area_empty_value)
    from place_element_success[OF assms(1) free, of t] assms(2)
    have vals: "\<forall>cy cx. in_range (grid g) cy cx \<longrightarrow>
              grid g' ! nat cy ! nat cx = (if in_rect x y w h cx cy then t else grid g ! nat cy ! nat cx)"
      and ok': "shape_ok g'" and dims: "grid_width g' = grid_width g" "grid_length g' = grid_length g"
      by auto
    have b: "0 \<le> cx \<and> cx < grid_width g \<and> 0 \<le> cy \<and> cy < grid_length g"
      using a within by (auto simp: in_rect_def is_within_grid_iff)
    then have "in_range (grid g) cy cx"
      using assms(1) by (simp add: shape_ok_in_range)
    then have "grid g' ! nat cy ! nat cx = t" using vals a by simp
    moreover have "np_get (grid g') cy cx = Inr (grid g' ! nat cy ! nat cx)"
      using get_shape_ok[OF ok', of cy cx] b dims by simp
    ultimately show "np_get (grid g') cy cx = Inr t \<and> \<not> listed g' cx cy"
      using a lists by (simp add: listed_def)
  qed
  from lists occ show ?thesis by blast
qed

theorem place_element_registers_nothing_witness:
  "shape_ok room_10x10 \<and>
   fst (projr (place_element room_10x10 0 0 2 1 RACK)) \<noteq> None \<and>
   racks (snd (projr (place_element room_10x10 0 0 2 1 RACK))) = [] \<and>
   np_get (grid (snd (projr (place_element room_10x10 0 0 2 1 RACK)))) 0 1 = Inr RACK \<and>
   \<not> listed (snd (projr (place_element room_10x10 0 0 2 1 RACK))) 1 0"
proof -
  have ok: "shape_ok room_10x10"
    unfolding room_10x10_def by code_simp
  have nl: "\<not> listed room_10x10 1 0"
    unfolding room_10x10_def by code_simp
  have r0: "racks room_10x10 = []"
    unfolding room_10x10_def by code_simp
  define r where "r = fst (projr (place_element room_10x10 0 0 2 1 RACK))"
  define g' where "g' = snd (projr (place_element room_10x10 0 0 2 1 RACK))"
  have "\<not> isl (place_element room_10x10 0 0 2 1 RACK)"
    unfolding room_10x10_def by code_simp
  then have p: "place_element room_10x10 0 0 2 1 RACK = Inr (r, g')"
    by (simp add: r_def g'_def)
  have r: "r \<noteq> None"
    unfolding r_def room_10x10_def by code_simp
  from place_element_registers_nothing[OF ok p] r nl r0
  have "racks g' = [] \<and> np_get (grid g') 0 1 = Inr RACK \<and> \<not> listed g' 1 0"
    by (simp add: in_rect_def)
  with ok r show ?thesis by (simp add: r_def g'_def)
qed




section \<open>Rack placement\<close>

text \<open>The decimal digits of an identifier are computed only in the examples.\<close>

declare str_nat.simps [simp del]

text \<open>
  Claim C8. On the 10 by 10 grid without pillars, 30 racks with all margins and the
  row spacing 0 give exactly 30 candidates: rows 0 to 5 from the bottom, each filled
  from the left at x = 0, 2, 4, 6, 8.
\<close>

theorem calculate_rack_positions_10x10:
  "DataCenterGrid_init exact_cells 10 10 1 = Inr room_10x10 \<and>
   grid_width room_10x10 = 10 \<and> grid_length room_10x10 = 10 \<and>
   pillars room_10x10 = [] \<and>
   calculate_rack_positions room_10x10 30 0 0 0 0 0 =
     Inr [(0, 0), (2, 0), (4, 0), (6, 0), (8, 0),
          (0, 1), (2, 1), (4, 1), (6, 1), (8, 1),
          (0, 2), (2, 2), (4, 2), (6, 2), (8, 2),
          (0, 3), (2, 3), (4, 3), (6, 3), (8, 3),
          (0, 4), (2, 4), (4, 4), (6, 4), (8, 4),
          (0, 5), (2, 5), (4, 5), (6, 5), (8, 5)] \<and>
   length (projr (calculate_rack_positions room_10x10 30 0 0 0 0 0)) = 30"
  unfolding room_10x10_def by code_simp

lemma place_element_shape_ok:
  assumes "shape_ok g" "place_element g x y w h t = Inr (r, g')"
  shows "shape_ok g'"
proof (cases "is_area_empty g x y w h = Inr True")
  case True
  from place_element_success[OF assms(1) True, of t] assms(2) show ?thesis by auto
next
  case False
  then have "is_area_empty g x y w h = Inr False"
    using is_area_empty_value[OF assms(1), of x y w h] by auto
  then show ?thesis using assms by (simp add: place_element_def)
qed

lemma place_element_total:
  assumes "shape_ok g"
  shows "\<exists>r g'. place_element g x y w h t = Inr (r, g') \<and>
           (r \<noteq> None \<longleftrightarrow> is_area_empty g x y w h = Inr True)"
proof (cases "is_area_empty g x y w h = Inr True")
  case True
  from place_element_success[OF assms True, of t] True show ?thesis by auto
next
  case False
  then have "is_area_empty g x y w h = Inr False"
    using is_area_empty_value[OF assms, of x y w h] by auto
  then show ?thesis by (simp add: place_element_def)
qed

lemma place_racks_loop_append:
  "place_racks_loop g acc (xs @ ys) =
     (case place_racks_loop g acc xs of
        Inl e \<Rightarrow> Inl e
      | Inr (acc', g') \<Rightarrow> place_racks_loop g' acc' ys)"
  by (induction xs arbitrary: g acc)
     (auto split: sum.splits option.splits prod.splits simp: Let_def)

lemma place_racks_loop_step:
  "place_racks_loop g acc [(i, p)] =
     (case place_element g (fst p) (snd p) RACK_WIDTH_CELLS RACK_HEIGHT_CELLS RACK of
        Inl e \<Rightarrow> Inl (e, acc, g)
      | Inr (None, g') \<Rightarrow> Inr (acc, g')
      | Inr (Some rack, g') \<Rightarrow>
          Inr (acc @ [rack\<lparr>el_id := Some (''R'' @ str_nat (i + 1))\<rparr>],
               g'\<lparr>racks := racks g' @ [rack\<lparr>el_id := Some (''R'' @ str_nat (i + 1))\<rparr>]\<rparr>))"
  by (cases p) (simp add: Let_def split: sum.splits option.splits prod.splits)

lemma place_racks_snoc:
  "place_racks g (ps @ [p]) =
     (case place_racks g ps of
        Inl e \<Rightarrow> Inl e
      | Inr (acc, g') \<Rightarrow> place_racks_loop g' acc [(length ps, p)])"
  by (simp add: place_racks_def enumerate_append_eq place_racks_loop_append)

lemma place_racks_ids:
  assumes "shape_ok g"
  shows "\<exists>placed g'. place_racks g ps = Inr (placed, g') \<and> shape_ok g' \<and>
           racks g' = racks g @ placed \<and>
           map el_id placed =
             map (\<lambda>i. Some (''R'' @ str_nat (i + 1)))
               (filter (commit_succeeds g ps) [0..<length ps]) \<and>
           map (\<lambda>r. (grid_x r, grid_y r)) placed =
             map (\<lambda>i. ps ! i) (filter (commit_succeeds g ps) [0..<length ps])"
proof (induction ps rule: rev_induct)
  case Nil
  show ?case using assms by (simp add: place_racks_def)
next
  case (snoc p ps)
  then obtain placed g' where ih: "place_racks g ps = Inr (placed, g')" "shape_ok g'"
    "racks g' = racks g @ placed"
    "map el_id placed =
       map (\<lambda>i. Some (''R'' @ str_nat (i + 1))) (filter (commit_succeeds g ps) [0..<length ps])"
    "map (\<lambda>r. (grid_x r, grid_y r)) placed =
       map (\<lambda>i. ps ! i) (filter (commit_succeeds g ps) [0..<length ps])"
    by blast
  have same: "commit_succeeds g (ps @ [p]) i = commit_succeeds g ps i" if "i < length ps" for i
  proof -
    have "(ps @ [p]) ! i = ps ! i" "take i (ps @ [p]) = take i ps"
      using that by (simp_all add: nth_append)
    then show ?thesis by (simp add: commit_succeeds_def split: sum.splits prod.splits)
  qed
  have flt: "filter (commit_succeeds g (ps @ [p])) [0..<length ps] =
             filter (commit_succeeds g ps) [0..<length ps]"
    by (rule filter_cong) (auto simp: same)
  have nths: "map (\<lambda>i. (ps @ [p]) ! i) (filter (commit_succeeds g ps) [0..<length ps]) =
              map (\<lambda>i. ps ! i) (filter (commit_succeeds g ps) [0..<length ps])"
    by (rule map_cong) (auto simp: nth_append)
  have last: "commit_succeeds g (ps @ [p]) (length ps) \<longleftrightarrow>
              is_area_empty g' (fst p) (snd p) RACK_WIDTH_CELLS RACK_HEIGHT_CELLS = Inr True"
    by (simp add: commit_succeeds_def ih(1))
  from place_element_total[OF ih(2), of "fst p" "snd p" RACK_WIDTH_CELLS RACK_HEIGHT_CELLS RACK]
  obtain r g'' where pe: "place_element g' (fst p) (snd p) RACK_WIDTH_CELLS RACK_HEIGHT_CELLS RACK
                            = Inr (r, g'')"
    and r: "r \<noteq> None \<longleftrightarrow>
            is_area_empty g' (fst p) (snd p) RACK_WIDTH_CELLS RACK_HEIGHT_CELLS = Inr True"
    by blast
  have ok'': "shape_ok g''" using place_element_shape_ok[OF ih(2) pe] .
  have lists: "racks g'' = racks g'" using place_element_lists[OF pe] by simp
  show ?case
  proof (cases r)
    case None
    then have "place_racks g (ps @ [p]) = Inr (placed, g'')"
      by (simp add: place_racks_snoc ih(1) pe place_racks_loop_step)
    moreover have "\<not> commit_succeeds g (ps @ [p]) (length ps)"
      using None r last by simp
    ultimately show ?thesis
      using ok'' lists ih(3,4,5) flt nths by simp
  next
    case (Some rack)
    have free: "is_area_empty g' (fst p) (snd p) RACK_WIDTH_CELLS RACK_HEIGHT_CELLS = Inr True"
      using Some r by simp
    from place_element_success[OF ih(2) free, of RACK] pe Some
    have pos: "grid_x rack = fst p" "grid_y rack = snd p" by auto
    let ?rack = "rack\<lparr>el_id := Some (''R'' @ str_nat (length ps + 1))\<rparr>"
    let ?g = "g''\<lparr>racks := racks g'' @ [?rack]\<rparr>"
    have res: "place_racks g (ps @ [p]) = Inr (placed @ [?rack], ?g)"
      by (simp add: place_racks_snoc ih(1) pe Some place_racks_loop_step)
    have ok: "shape_ok ?g" using ok'' by (simp add: shape_ok_def)
    have cs: "commit_succeeds g (ps @ [p]) (length ps)"
      using free last by simp
    show ?thesis
      using res ok lists ih(3,4,5) flt nths cs pos by simp
  qed
qed

text \<open>
  Claim C7, as the code has it. \<open>place_racks\<close> gives the rack committed from the
  candidate at index \<open>i\<close> (counting from 0) the identifier \<open>R\<close> followed by \<open>i + 1\<close>: the
  identifiers and the positions of the placed racks are those of the committed
  candidates, in order, so a failed candidate uses up its number.
\<close>

theorem place_racks_ids_by_candidate_index:
  assumes "shape_ok g"
  shows "\<exists>placed g'. place_racks g ps = Inr (placed, g') \<and>
           racks g' = racks g @ placed \<and>
           map el_id placed =
             map (\<lambda>i. Some (''R'' @ str_nat (i + 1)))
               (filter (commit_succeeds g ps) [0..<length ps]) \<and>
           map (\<lambda>r. (grid_x r, grid_y r)) placed =
             map (\<lambda>i. ps ! i) (filter (commit_succeeds g ps) [0..<length ps])"
  using place_racks_ids[OF assms, of ps] by blast

theorem place_racks_ids_by_candidate_index_witness:
  "shape_ok room_10x10 \<and>
   map el_id (fst (projr (place_racks room_10x10 [(0, 0), (1, 0), (4, 0)]))) =
     [Some ''R1'', Some ''R3''] \<and>
   map (\<lambda>r. (grid_x r, grid_y r)) (fst (projr (place_racks room_10x10 [(0, 0), (1, 0), (4, 0)])))
     = [(0, 0), (4, 0)]"
proof -
  have ok: "shape_ok room_10x10"
    unfolding room_10x10_def by code_simp
  have f: "filter (commit_succeeds room_10x10 [(0, 0), (1, 0), (4, 0)])
             [0..<length [(0, 0), (1, 0), (4, 0) :: int \<times> int]] = [0, 2]"
    unfolding room_10x10_def by code_simp
  have s: "str_nat (0 + 1) = ''1''" "str_nat (2 + 1) = ''3''" by code_simp+
  from place_racks_ids_by_candidate_index[OF ok, of "[(0, 0), (1, 0), (4, 0)]"]
  obtain placed g' where res: "place_racks room_10x10 [(0, 0), (1, 0), (4, 0)] = Inr (placed, g')"
    and ids: "map el_id placed =
             map (\<lambda>i. Some (''R'' @ str_nat (i + 1)))
               (filter (commit_succeeds room_10x10 [(0, 0), (1, 0), (4, 0)])
                  [0..<length [(0, 0), (1, 0), (4, 0) :: int \<times> int]])"
    and pos: "map (\<lambda>r. (grid_x r, grid_y r)) placed =
             map (\<lambda>i. [(0, 0), (1, 0), (4, 0)] ! i)
               (filter (commit_succeeds room_10x10 [(0, 0), (1, 0), (4, 0)])
                  [0..<length [(0, 0), (1, 0), (4, 0) :: int \<times> int]])"
    by blast
  have "map el_id placed = [Some ''R1'', Some ''R3'']"
    unfolding ids f using s by simp
  moreover have "map (\<lambda>r. (grid_x r, grid_y r)) placed = [(0, 0), (4, 0)]"
    unfolding pos f by simp
  ultimately show ?thesis using ok res by simp
qed

text \<open>
  Claim C7 as stated fails: when the second candidate collides with the first, the
  second rack that is placed is \<open>R3\<close>, not \<open>R2\<close>.
\<close>

theorem place_racks_ids_gap_counterexample:
  "map el_id (fst (projr (place_racks room_10x10 [(0, 0), (0, 0), (2, 0)]))) =
     [Some ''R1'', Some ''R3''] \<and>
   length (fst (projr (place_racks room_10x10 [(0, 0), (0, 0), (2, 0)]))) = 2"
  unfolding room_10x10_def by code_simp

section \<open>Pillar placement by count\<close>

text \<open>
  Claim C6 against the code. With one pillar per axis on the 10 by 10 grid and a
  2 by 2 pillar, the centred origin would be \<open>(10 - 2) div 2 = 4\<close> on both axes; the
  position computed and the pillar placed are at \<open>(0, 0)\<close>, because index 0 is reset
  to the edge after the centring. With three by two pillars the first is at 0 and the
  last at \<open>10 - 2 = 8\<close>.
\<close>

theorem place_pillars_by_count_single_not_centred:
  "(grid_width room_10x10 - 2) div 2 = 4 \<and>
   pillar_positions_by_count room_10x10 2 2 1 1 = [(0, 0)] \<and>
   map (\<lambda>p. (grid_x p, grid_y p)) (fst (projr (place_pillars_by_count room_10x10 2 2 1 1)))
     = [(0, 0)] \<and>
   pillar_positions_by_count room_10x10 2 2 3 2 =
     [(0, 0), (5, 0), (8, 0), (0, 8), (5, 8), (8, 8)]"
  unfolding room_10x10_def by code_simp

section \<open>Clearing the racks\<close>

text \<open>
  Claim C3 against the code. One rack committed at \<open>(0, 0)\<close> marks the cells
  \<open>(0, 0)\<close> and \<open>(1, 0)\<close>. \<open>clear_racks\<close> visits \<open>(0, 0)\<close> and \<open>(0, 1)\<close> instead: the cell
  \<open>(1, 0)\<close>, in row 0 and column 1 of the array, is still RACK afterwards, while the
  rack list is empty.
\<close>

theorem clear_racks_leaves_rack_cell:
  "np_get (grid (snd (projr (place_racks room_10x10 [(0, 0)])))) 0 1 = Inr RACK \<and>
   clear_rack_cells (hd (racks (snd (projr (place_racks room_10x10 [(0, 0)])))))
     = [(0, 0), (1, 0)] \<and>
   np_get (grid (clear_racks (snd (projr (place_racks room_10x10 [(0, 0)]))))) 0 1 = Inr RACK \<and>
   np_get (grid (clear_racks (snd (projr (place_racks room_10x10 [(0, 0)]))))) 0 0 = Inr EMPTY \<and>
   racks (clear_racks (snd (projr (place_racks room_10x10 [(0, 0)])))) = []"
  unfolding room_10x10_def by code_simp

text \<open>
  Claim C4 against the code. The invariant holds for the new grid and after a commit,
  and is lost by clearing the racks (a RACK cell stays behind with an empty rack list).
  It also holds after a first pillar placement and is lost by a second one: the pillar
  list is emptied while the cells stay PILLAR, so every new placement fails.
\<close>

theorem occupancy_invariant_broken:
  "occupancy_consistent room_10x10 \<and>
   occupancy_consistent (snd (projr (place_racks room_10x10 [(0, 0)]))) \<and>
   \<not> occupancy_consistent (clear_racks (snd (projr (place_racks room_10x10 [(0, 0)])))) \<and>
   occupancy_consistent (snd (projr (place_pillars_by_count room_10x10 1 1 2 2))) \<and>
   pillars (snd (projr (place_pillars_by_count
              (snd (projr (place_pillars_by_count room_10x10 1 1 2 2))) 1 1 2 2))) = [] \<and>
   \<not> occupancy_consistent (snd (projr (place_pillars_by_count
              (snd (projr (place_pillars_by_count room_10x10 1 1 2 2))) 1 1 2 2)))"
  unfolding room_10x10_def by code_simp

section \<open>The strategies emit at most the requested number of candidates\<close>

text \<open>The two \<open>while\<close> loops are evaluated by their recursion equations.\<close>

declare perimeter_rings.simps [code]

declare circular_rings.simps [code]

lemma length_range_py: "length (range_py a b) = nat (b - a)"
  by (simp add: range_py_def)

lemma range_py_empty: "b \<le> a \<Longrightarrow> range_py a b = []"
  by (simp add: range_py_def)

lemma range_py_Cons: "a < b \<Longrightarrow> range_py a b = a # range_py (a + 1) b"
  by (simp add: range_py_def upto_rec1)

lemma length_slice_upto: "0 \<le> n \<Longrightarrow> int (length (slice_upto n xs)) \<le> n"
  by (simp add: slice_upto_def)

lemma div_mult_le_int: "0 < (b::int) \<Longrightarrow> a div b * b \<le> a"
  by (metis div_mult_mod_eq pos_mod_sign add.commute le_add_same_cancel2 less_imp_le
      mult.commute add_increasing2 order_refl)

lemma cap_step:
  fixes m a :: int
  assumes "0 < m"
  shows "nat (min m a) + nat (a - m) \<le> nat a"
  using assms by (cases "m \<le> a") (simp_all add: min_def)

lemma cap_step_row:
  fixes m n k :: int
  assumes "0 < m"
  shows "nat (min m (n - k * m)) + nat (n - (k + 1) * m) \<le> nat (n - k * m)"
proof -
  have "n - (k + 1) * m = (n - k * m) - m" by (simp add: algebra_simps)
  then show ?thesis using cap_step[OF assms, of "n - k * m"] by simp
qed

text \<open>
  Rows \<open>k, k+1, ...\<close> that each take at most \<open>min m (n - row * m)\<close> racks take at most
  \<open>n - k * m\<close> together.
\<close>

lemma capped_rows_sum:
  fixes c :: "int \<Rightarrow> nat"
  assumes "0 < m" and "\<And>row. k \<le> row \<Longrightarrow> c row \<le> nat (min m (n - row * m))"
  shows "sum_list (map c (range_py k R)) \<le> nat (n - k * m)"
  using assms(2)
proof (induction "nat (R - k)" arbitrary: k)
  case 0
  then show ?case by (simp add: range_py_empty)
next
  case (Suc d)
  then have lt: "k < R" by linarith
  have d: "d = nat (R - (k + 1))" using Suc.hyps(2) by linarith
  have rest: "sum_list (map c (range_py (k + 1) R)) \<le> nat (n - (k + 1) * m)"
    by (rule Suc.hyps(1)[OF d]) (simp add: Suc.prems)
  have first: "c k \<le> nat (min m (n - k * m))" by (simp add: Suc.prems)
  have "nat (min m (n - k * m)) + nat (n - (k + 1) * m) \<le> nat (n - k * m)"
    using assms(1) by (rule cap_step_row)
  with rest first show ?case by (simp add: range_py_Cons[OF lt])
qed

lemma length_concat_map: "length (concat (map f xs)) = sum_list (map (\<lambda>x. length (f x)) xs)"
  by (induction xs) auto

subsection \<open>Standard rows\<close>

lemma fill_rows_nonpositive: "m \<le> 0 \<Longrightarrow> m \<noteq> 0 \<Longrightarrow> fill_rows m n b l rs rows = []"
  by (cases rows) (auto simp: Let_def)

lemma fill_rows_length:
  assumes "0 < m"
  shows "length (fill_rows m n b l rs (range_py k R)) \<le> nat (n - k * m)"
proof (induction "nat (R - k)" arbitrary: k)
  case 0
  then show ?case by (simp add: range_py_empty)
next
  case (Suc d)
  then have lt: "k < R" by linarith
  have d: "d = nat (R - (k + 1))" using Suc.hyps(2) by linarith
  have rest: "length (fill_rows m n b l rs (range_py (k + 1) R)) \<le> nat (n - (k + 1) * m)"
    by (rule Suc.hyps(1)[OF d])
  have "nat (min m (n - k * m)) + nat (n - (k + 1) * m) \<le> nat (n - k * m)"
    using assms by (rule cap_step_row)
  with rest show ?case
    by (simp add: range_py_Cons[OF lt] Let_def length_range_py)
qed

text \<open>
  When the rows do not fit, the truncated count \<open>max_rows * m\<close> stays below the
  requested count as long as the row pitch \<open>1 + row_spacing\<close> is positive.
\<close>

lemma truncated_count_le:
  fixes m n rs ah :: int
  assumes m: "0 < m" and rs: "0 \<le> rs"
    and over: "(n + m - 1) div m * (1 + rs) - rs > ah"
  shows "ah div (1 + rs) * m \<le> n"
proof -
  let ?R = "(n + m - 1) div m" and ?M = "ah div (1 + rs)"
  have "?M * (1 + rs) \<le> ah" using rs by (intro div_mult_le_int) simp
  with over rs have "?M * (1 + rs) < ?R * (1 + rs)" by linarith
  then have "?M < ?R" using rs by (simp add: mult_less_cancel_right)
  then have "?M * m \<le> (?R - 1) * m" using m by (intro mult_right_mono) auto
  also have "\<dots> = ?R * m - m" by (simp add: algebra_simps)
  also have "\<dots> \<le> (n + m - 1) - m" using div_mult_le_int[OF m, of "n + m - 1"] by simp
  finally show ?thesis by simp
qed

lemma calculate_rack_positions_length:
  assumes n: "0 \<le> n" and rs: "- 1 \<le> rs"
    and res: "calculate_rack_positions g n tm bm lm rm rs = Inr ps"
  shows "int (length ps) \<le> n"
proof -
  define m where "m = (grid_width g - lm - rm) div 2"
  define ah where "ah = grid_length g - tm - bm"
  consider "m = 0" | "m < 0" | "0 < m" by linarith
  then show ?thesis
  proof cases
    case 1
    then show ?thesis using res n by (simp add: calculate_rack_positions_def m_def)
  next
    case 2
    then have "ps = []"
      using res fill_rows_nonpositive[of m]
      by (auto simp: calculate_rack_positions_def m_def Let_def floordiv_def
          split: if_splits)
    then show ?thesis using n by simp
  next
    case 3
    show ?thesis
    proof (cases "(n + m - 1) div m * (1 + rs) - rs > ah")
      case False
      then have ps: "ps = fill_rows m n bm lm rs (range_py 0 ((n + m - 1) div m))"
        using res 3 by (simp add: calculate_rack_positions_def m_def ah_def Let_def)
      have "length ps \<le> nat (n - 0 * m)"
        unfolding ps by (rule fill_rows_length[OF 3])
      then show ?thesis using n by simp
    next
      case True
      then have ne: "1 + rs \<noteq> 0" and
        ps: "ps = fill_rows m (ah div (1 + rs) * m) bm lm rs (range_py 0 (ah div (1 + rs)))"
        using res 3
        by (auto simp: calculate_rack_positions_def m_def ah_def Let_def floordiv_def
            split: if_splits)
      from ne rs have "0 \<le> rs" by linarith
      from truncated_count_le[OF 3 this True] have "ah div (1 + rs) * m \<le> n" .
      moreover have "length ps \<le> nat (ah div (1 + rs) * m - 0 * m)"
        unfolding ps by (rule fill_rows_length[OF 3])
      ultimately show ?thesis using n by auto
    qed
  qed
qed

subsection \<open>Rows with a central aisle\<close>

lemma fill_aisle_rows_nonpositive:
  "m \<le> 0 \<Longrightarrow> m \<noteq> 0 \<Longrightarrow> fill_aisle_rows hf n b rs cx aw m rows = []"
  by (cases rows) (auto simp: Let_def)

lemma fill_aisle_rows_length:
  assumes "0 < m"
  shows "length (fill_aisle_rows hf n b rs cx aw m (range_py k R)) \<le> nat (n - k * m)"
proof (induction "nat (R - k)" arbitrary: k)
  case 0
  then show ?case by (simp add: range_py_empty)
next
  case (Suc d)
  then have lt: "k < R" by linarith
  have d: "d = nat (R - (k + 1))" using Suc.hyps(2) by linarith
  have rest: "length (fill_aisle_rows hf n b rs cx aw m (range_py (k + 1) R))
                \<le> nat (n - (k + 1) * m)"
    by (rule Suc.hyps(1)[OF d])
  define r where "r = min m (n - k * m)"
  have step: "nat r + nat (n - (k + 1) * m) \<le> nat (n - k * m)"
    unfolding r_def using assms by (rule cap_step_row)
  show ?case
  proof (cases "r \<le> 0")
    case True
    then show ?thesis by (simp add: range_py_Cons[OF lt] Let_def r_def)
  next
    case False
    then have row: "nat (min hf r) + nat (min hf (r - min hf r)) \<le> nat r" by linarith
    have "length (fill_aisle_rows hf n b rs cx aw m (range_py k R)) =
            nat (min hf r) + nat (min hf (r - min hf r))
            + length (fill_aisle_rows hf n b rs cx aw m (range_py (k + 1) R))"
      using False by (simp add: range_py_Cons[OF lt] Let_def length_range_py r_def)
    with row step rest show ?thesis by linarith
  qed
qed

lemma calculate_rack_positions_with_aisle_length:
  assumes n: "0 \<le> n" and rs: "- 1 \<le> rs"
    and res: "calculate_rack_positions_with_aisle g n tm bm lm rm rs aw = Inr ps"
  shows "int (length ps) \<le> n"
proof -
  define hf where "hf = (grid_width g - lm - rm - aw) div 4"
  define m where "m = hf * 2"
  define ah where "ah = grid_length g - tm - bm"
  define cx where "cx = lm + (grid_width g - lm - rm) div 2"
  consider "hf = 0" | "m < 0" | "0 < m" unfolding m_def by linarith
  then show ?thesis
  proof cases
    case 1
    then show ?thesis using res n by (simp add: calculate_rack_positions_with_aisle_def hf_def)
  next
    case 2
    then have "ps = []"
      using res fill_aisle_rows_nonpositive[of m]
      by (auto simp: calculate_rack_positions_with_aisle_def hf_def m_def Let_def floordiv_def
          split: if_splits)
    then show ?thesis using n by simp
  next
    case 3
    then have hf0: "hf \<noteq> 0" by (auto simp: m_def)
    show ?thesis
    proof (cases "(n + m - 1) div m * (1 + rs) - rs > ah")
      case False
      then have ps: "ps = fill_aisle_rows hf n bm rs cx aw m (range_py 0 ((n + m - 1) div m))"
        using res hf0
        by (simp add: calculate_rack_positions_with_aisle_def hf_def m_def ah_def cx_def Let_def)
      have "length ps \<le> nat (n - 0 * m)"
        unfolding ps by (rule fill_aisle_rows_length[OF 3])
      then show ?thesis using n by simp
    next
      case True
      then have ne: "1 + rs \<noteq> 0" and
        ps: "ps = fill_aisle_rows hf (ah div (1 + rs) * m) bm rs cx aw m
                    (range_py 0 (ah div (1 + rs)))"
        using res hf0
        by (auto simp: calculate_rack_positions_with_aisle_def hf_def m_def ah_def cx_def
            Let_def floordiv_def split: if_splits)
      from ne rs have "0 \<le> rs" by linarith
      from truncated_count_le[OF 3 this True] have "ah div (1 + rs) * m \<le> n" .
      moreover have "length ps \<le> nat (ah div (1 + rs) * m - 0 * m)"
        unfolding ps by (rule fill_aisle_rows_length[OF 3])
      ultimately show ?thesis using n by auto
    qed
  qed
qed

subsection \<open>Diagonal\<close>

lemma length_concat_singletons:
  "(\<And>x. length (f x) \<le> 1) \<Longrightarrow> length (concat (map f xs)) \<le> length xs"
proof (induction xs)
  case Nil
  then show ?case by simp
next
  case (Cons x xs)
  then have "length (f x) \<le> 1" "length (concat (map f xs)) \<le> length xs" by auto
  then show ?case by simp
qed

lemma diagonal_row_length:
  "length (diagonal_row g n params fl row)
     \<le> nat (min (racks_per_diagonal fl) (n - row * racks_per_diagonal fl))"
proof -
  have "length (diagonal_row g n params fl row)
          \<le> length (range_py 0 (min (racks_per_diagonal fl) (n - row * racks_per_diagonal fl)))"
    unfolding diagonal_row_def Let_def
    by (rule length_concat_singletons) simp
  then show ?thesis by (simp add: length_range_py)
qed

lemma generate_diagonal_layout_length:
  assumes n: "0 \<le> n" and res: "generate_diagonal_layout g n params floats = Inr ps"
  shows "int (length ps) \<le> n"
proof -
  from res obtain fl where fl: "floats = Inr fl"
    by (auto simp: generate_diagonal_layout_def split: sum.splits)
  define m where "m = racks_per_diagonal fl"
  from res fl have m0: "m \<noteq> 0" and
    ps: "ps = concat (map (diagonal_row g n params fl)
                (range_py 0 (min (diagonal_rows fl) ((n + m - 1) div m))))"
    by (auto simp: generate_diagonal_layout_def floordiv_def m_def split: if_splits)
  have len: "length ps = sum_list (map (\<lambda>row. length (diagonal_row g n params fl row))
                (range_py 0 (min (diagonal_rows fl) ((n + m - 1) div m))))"
    unfolding ps by (rule length_concat_map)
  show ?thesis
  proof (cases "0 < m")
    case True
    have "length ps \<le> nat (n - 0 * m)"
      unfolding len
      by (rule capped_rows_sum[OF True]) (simp add: diagonal_row_length[of g n params fl, folded m_def])
    then show ?thesis using n by simp
  next
    case False
    then have "m < 0" using m0 by simp
    then have "length (diagonal_row g n params fl row) = 0" for row
      using diagonal_row_length[of g n params fl row] by (simp add: m_def)
    then have "length ps = 0" unfolding len by simp
    then show ?thesis using n by simp
  qed
qed

subsection \<open>Pods\<close>

lemma foldl_invariant:
  "P st \<Longrightarrow> (\<And>s x. P s \<Longrightarrow> P (f s x)) \<Longrightarrow> P (foldl f st xs)"
  by (induction xs arbitrary: st) auto

lemma pod_cols_loop_counted:
  "counted limit st \<Longrightarrow> counted limit (pod_cols_loop limit pod_x gy st cols)"
proof (induction cols arbitrary: st)
  case Nil
  then show ?case by simp
next
  case (Cons c cols)
  show ?case
  proof (cases "snd st \<ge> limit")
    case True
    then show ?thesis using Cons.prems by simp
  next
    case False
    let ?st = "(fst st @ [(pod_x + c * (RACK_WIDTH_CELLS + 1), gy)], snd st + 1)"
    have "counted limit ?st" using Cons.prems False by (simp add: counted_def)
    from Cons.IH[OF this] show ?thesis using False by simp
  qed
qed

lemma pod_fill_counted:
  "counted limit st \<Longrightarrow> counted limit (pod_fill limit pod_x pod_y pod_rows pod_cols st)"
  unfolding pod_fill_def
  by (rule foldl_invariant) (simp_all add: pod_cols_loop_counted)

lemma pods_in_row_loop_counted:
  "counted limit st \<Longrightarrow>
   counted limit (pods_in_row_loop limit params pw ph pod_rows pod_cols pod_row st cols)"
proof (induction cols arbitrary: st)
  case Nil
  then show ?case by simp
next
  case (Cons c cols)
  show ?case
  proof (cases "snd st \<ge> limit")
    case True
    then show ?thesis using Cons.prems by simp
  next
    case False
    have "counted limit
            (pod_fill limit (left_margin params + c * (pw + aisle_width params))
               (bottom_margin params + pod_row * (ph + aisle_width params))
               pod_rows pod_cols st)"
      using Cons.prems by (rule pod_fill_counted)
    from Cons.IH[OF this] show ?thesis using False by (simp add: Let_def)
  qed
qed

lemma pods_foldl_counted:
  "counted limit st \<Longrightarrow>
   counted limit
     (foldl (\<lambda>st pod_row. pods_in_row_loop limit params pw ph pod_rows pod_cols pod_row st cols)
        st rows)"
  by (rule foldl_invariant) (simp_all add: pods_in_row_loop_counted)

lemma generate_pod_layout_length:
  assumes n: "0 \<le> n" and res: "generate_pod_layout g n params = Inr ps"
  shows "int (length ps) \<le> n"
proof -
  have start: "counted limit ([], 0)" for limit by (simp add: counted_def)
  have fin: "counted (min n t) st \<Longrightarrow> int (length (fst st)) \<le> n" for t st
    using n by (auto simp: counted_def)
  show ?thesis
    using res fin[OF pods_foldl_counted[OF start]]
    by (auto simp: generate_pod_layout_def Let_def split: sum.splits)
qed

subsection \<open>Spine and leaves\<close>

lemma needed_length:
  "needed tot st \<Longrightarrow> tot \<le> n \<Longrightarrow> 0 \<le> n \<Longrightarrow> int (length (fst st)) \<le> n"
  by (auto simp: needed_def)

lemma leaf_row_loop_needed:
  "needed tot st \<Longrightarrow> int (length xs) \<le> max 0 (snd st) \<Longrightarrow>
   needed tot (leaf_row_loop start_x row_y st xs)"
proof (induction xs arbitrary: st)
  case Nil
  then show ?case by simp
next
  case (Cons x xs)
  let ?st = "(fst st @ [(start_x + x * RACK_WIDTH_CELLS, row_y)], snd st - 1)"
  from Cons.prems have pos: "1 \<le> snd st" by simp
  with Cons.prems have st': "needed tot ?st" by (auto simp: needed_def)
  show ?case
  proof (cases "snd st - 1 \<le> 0")
    case True
    then show ?thesis using st' by (simp add: Let_def)
  next
    case False
    have "needed tot (leaf_row_loop start_x row_y ?st xs)"
      by (rule Cons.IH[OF st']) (use Cons.prems pos in simp)
    then show ?thesis using False by (simp add: Let_def)
  qed
qed

lemma leaf_rows_loop_needed:
  "needed tot st \<Longrightarrow> needed tot (leaf_rows_loop start_x rpr params st rows)"
proof (induction rows arbitrary: st)
  case Nil
  then show ?case by simp
next
  case (Cons row rows)
  let ?st = "leaf_row_loop start_x
               (bottom_margin params + row * (RACK_HEIGHT_CELLS + row_spacing params)) st
               (range_py 0 (min rpr (snd st)))"
  have st': "needed tot ?st"
    by (rule leaf_row_loop_needed[OF Cons.prems]) (simp add: length_range_py)
  show ?case using st' Cons.IH[OF st'] by (simp add: Let_def)
qed

lemma leaf_sections_loop_needed:
  "needed tot st \<Longrightarrow> leaf_sections_loop ah params st secs = Inr st' \<Longrightarrow> needed tot st'"
proof (induction secs arbitrary: st)
  case Nil
  then show ?case by simp
next
  case (Cons sec secs)
  obtain sx ex where sec: "sec = (sx, ex)" by (cases sec)
  show ?case
  proof (cases "(ex - sx) div RACK_WIDTH_CELLS \<le> 0")
    case True
    then show ?thesis using Cons by (simp add: sec Let_def)
  next
    case False
    then obtain rows where
      "leaf_sections_loop ah params
         (leaf_rows_loop sx ((ex - sx) div RACK_WIDTH_CELLS) params st rows) secs = Inr st'"
      using Cons.prems(2) by (auto simp: sec Let_def split: sum.splits)
    then show ?thesis
      using Cons.IH leaf_rows_loop_needed[OF Cons.prems(1)] by blast
  qed
qed

lemma generate_spine_leaf_layout_length:
  assumes n: "0 \<le> n" and res: "generate_spine_leaf_layout g n params spine_x = Inr ps"
  shows "int (length ps) \<le> n"
proof -
  from res obtain secs ah st where
    st: "leaf_sections_loop ah params ([], n) secs = Inr st" and ps: "ps = fst st"
    by (auto simp: generate_spine_leaf_layout_def Let_def split: sum.splits)
  have "needed n ([], n)" using n by (simp add: needed_def)
  from leaf_sections_loop_needed[OF this st] have "needed n st" .
  then show ?thesis using n by (simp add: ps needed_length)
qed

subsection \<open>Clusters\<close>

lemma cluster_j_loop_needed:
  "needed tot st \<Longrightarrow> int (length xs) \<le> max 0 (snd st) \<Longrightarrow>
   needed tot (cluster_j_loop cx gy st xs) \<and>
   (snd (cluster_j_loop cx gy st xs) \<le> 0 \<or>
    snd (cluster_j_loop cx gy st xs) = snd st - int (length xs))"
proof (induction xs arbitrary: st)
  case Nil
  then show ?case by simp
next
  case (Cons x xs)
  let ?st = "(fst st @ [(cx + x * RACK_WIDTH_CELLS, gy)], snd st - 1)"
  from Cons.prems have pos: "1 \<le> snd st" by simp
  with Cons.prems have st': "needed tot ?st" by (auto simp: needed_def)
  show ?case
  proof (cases "snd st - 1 \<le> 0")
    case True
    then show ?thesis using st' by (simp add: Let_def)
  next
    case False
    have "needed tot (cluster_j_loop cx gy ?st xs) \<and>
          (snd (cluster_j_loop cx gy ?st xs) \<le> 0 \<or>
           snd (cluster_j_loop cx gy ?st xs) = snd ?st - int (length xs))"
      by (rule Cons.IH[OF st']) (use Cons.prems pos in simp)
    then show ?thesis using False by (auto simp: Let_def)
  qed
qed

lemma cluster_i_loop_needed:
  assumes "0 < w"
  shows "needed tot st \<Longrightarrow> ric - i * w \<le> snd st \<Longrightarrow>
         needed tot (cluster_i_loop cx cy w ric st (range_py i R))"
proof (induction "nat (R - i)" arbitrary: i st)
  case 0
  then show ?case by (simp add: range_py_empty)
next
  case (Suc d)
  then have lt: "i < R" by linarith
  have d: "d = nat (R - (i + 1))" using Suc.hyps(2) by linarith
  let ?xs = "range_py 0 (min w (ric - i * w))"
  let ?st = "cluster_j_loop cx (cy + i * RACK_HEIGHT_CELLS) st ?xs"
  have "min w (ric - i * w) \<le> snd st" using Suc.prems(2) by linarith
  then have len: "int (length ?xs) \<le> max 0 (snd st)"
    unfolding length_range_py by linarith
  from cluster_j_loop_needed[OF Suc.prems(1) len]
  have st': "needed tot ?st" and cnt: "snd ?st \<le> 0 \<or> snd ?st = snd st - int (length ?xs)"
    by blast+
  show ?case
  proof (cases "snd ?st \<le> 0")
    case True
    then show ?thesis using st' by (simp add: range_py_Cons[OF lt] Let_def)
  next
    case False
    with cnt have "snd ?st = snd st - int (length ?xs)" by simp
    moreover have "int (length ?xs) \<le> w" using assms by (simp add: length_range_py)
    moreover have "ric - (i + 1) * w = ric - i * w - w" by (simp add: algebra_simps)
    ultimately have "ric - (i + 1) * w \<le> snd ?st" using Suc.prems(2) by linarith
    from Suc.hyps(1)[OF d st' this] show ?thesis
      using False by (simp add: range_py_Cons[OF lt] Let_def)
  qed
qed

lemma cluster_col_loop_needed:
  assumes "0 < w"
  shows "needed tot st \<Longrightarrow> needed tot (cluster_col_loop params cw ch w crow st cols)"
proof (induction cols arbitrary: st)
  case Nil
  then show ?case by simp
next
  case (Cons c cols)
  define ric where "ric = min (cluster_size params) (snd st)"
  let ?st = "cluster_i_loop (left_margin params + c * cw) (bottom_margin params + crow * ch)
               w ric st
               (range_py 0 (min ((cluster_size params + w - 1) div w) ((ric + w - 1) div w)))"
  have "ric - 0 * w \<le> snd st" by (simp add: ric_def)
  from cluster_i_loop_needed[OF assms Cons.prems this] have st': "needed tot ?st" .
  show ?case
    using Cons.prems st' Cons.IH[OF st'] by (simp add: Let_def ric_def)
qed

lemma cluster_row_loop_needed:
  assumes "0 < w"
  shows "needed tot st \<Longrightarrow> needed tot (cluster_row_loop params cw ch w cpr st rows)"
proof (induction rows arbitrary: st)
  case Nil
  then show ?case by simp
next
  case (Cons r rows)
  have st': "needed tot (cluster_col_loop params cw ch w r st (range_py 0 cpr))"
    using Cons.prems by (rule cluster_col_loop_needed[OF assms])
  show ?case using st' Cons.IH[OF st'] by (simp add: Let_def)
qed

lemma generate_cluster_layout_length:
  assumes n: "0 \<le> n" and res: "generate_cluster_layout g n params = Inr ps"
  shows "int (length ps) \<le> n"
proof -
  from res obtain w where w: "int_sqrt (cluster_size params) = Inr w"
    by (auto simp: generate_cluster_layout_def Let_def split: sum.splits)
  then have "0 \<le> w" by (auto simp: int_sqrt_def split: if_splits)
  moreover from res w have "w \<noteq> 0"
    by (auto simp: generate_cluster_layout_def Let_def floordiv_def split: sum.splits if_splits)
  ultimately have pos: "0 < w" by simp
  from res w obtain tot cw ch cpr rows where
    ps: "ps = fst (cluster_row_loop params cw ch w cpr ([], tot) rows)" and tot: "tot \<le> n"
    by (auto simp: generate_cluster_layout_def Let_def split: sum.splits)
  have "needed tot ([], tot)" by (simp add: needed_def)
  from cluster_row_loop_needed[OF pos this]
  have "needed tot (cluster_row_loop params cw ch w cpr ([], tot) rows)" .
  then show ?thesis using tot n by (simp add: ps needed_length)
qed

subsection \<open>The strategies that end with the slice\<close>

lemma generate_cooling_optimized_layout_length:
  assumes "0 \<le> n" and "generate_cooling_optimized_layout g n params = Inr ps"
  shows "int (length ps) \<le> n"
  using assms
  by (auto simp: generate_cooling_optimized_layout_def Let_def length_slice_upto
      split: sum.splits if_splits)

lemma generate_high_density_zones_layout_length:
  assumes "0 \<le> n" and "generate_high_density_zones_layout g n params hdc hdw = Inr ps"
  shows "int (length ps) \<le> n"
  using assms
  by (auto simp: generate_high_density_zones_layout_def Let_def length_slice_upto
      split: sum.splits if_splits)

lemma generate_perimeter_layout_length:
  assumes "0 \<le> n" and "generate_perimeter_layout g n params = Some ps"
  shows "int (length ps) \<le> n"
  using assms by (auto simp: generate_perimeter_layout_def Let_def length_slice_upto)

lemma generate_circular_layout_length:
  assumes "0 \<le> n" and "generate_circular_layout g n params fl = Some ps"
  shows "int (length ps) \<le> n"
  using assms by (auto simp: generate_circular_layout_def Let_def length_slice_upto)

text \<open>Both \<open>while\<close> loops end when their step is positive.\<close>

lemma margin_measure_step:
  fixes M c s :: int
  assumes "c * 2 < M" and "0 < s"
  shows "nat (M - (c + s) * 2) < nat (M - c * 2)"
  using assms by (simp add: algebra_simps)

lemma perimeter_rings_returns:
  assumes "0 < RACK_WIDTH_CELLS + row_spacing params"
  shows "\<exists>ps. perimeter_rings aw ah params cm rn acc = Some ps"
proof (induction "nat (min aw ah - cm * 2)" arbitrary: cm rn acc rule: less_induct)
  case less
  show ?case
  proof (cases "rn > 0 \<and> cm * 2 < min aw ah")
    case False
    have "perimeter_rings aw ah params cm rn acc = Some acc"
      by (subst perimeter_rings.simps) (simp only: False if_False)
    then show ?thesis by blast
  next
    case True
    have "nat (min aw ah - (cm + RACK_WIDTH_CELLS + row_spacing params) * 2)
            < nat (min aw ah - cm * 2)"
      using margin_measure_step[of cm "min aw ah" "RACK_WIDTH_CELLS + row_spacing params"]
        True assms by (simp add: add.assoc)
    from less[OF this] show ?thesis
      by (subst perimeter_rings.simps) (simp only: True simp_thms if_True)
  qed
qed

lemma circular_rings_returns:
  assumes "0 < RACK_WIDTH_CELLS + spacing params"
  shows "\<exists>ps. circular_rings g n params fl mr r placed acc = Some ps"
proof (induction "nat (mr + 1 - r)" arbitrary: r placed acc rule: less_induct)
  case less
  show ?case
  proof (cases "r \<le> mr \<and> placed < n \<and> \<not> min (ring_capacity fl r) (n - placed) \<le> 0")
    case False
    then show ?thesis by (subst circular_rings.simps) auto
  next
    case True
    have "nat (mr + 1 - (r + RACK_WIDTH_CELLS + spacing params)) < nat (mr + 1 - r)"
      using True assms by linarith
    from less[OF this] show ?thesis
      using True by (subst circular_rings.simps) simp
  qed
qed

text \<open>
  Claim C2. For a requested count \<open>n \<ge> 0\<close>, every list that one of the ten strategies
  returns has at most \<open>n\<close> candidates. The row spacing of the two row strategies is a
  distance in grid cells, which is not negative; the bound is proved for them from a
  row spacing of \<open>-1\<close> on, and for the other eight strategies for all parameters and
  all results of the floating-point computations. The loops of the perimeter and
  circular strategies end, so that a list is returned, when the step between rings is
  positive, as it is for a spacing that is not negative.
\<close>

theorem strategies_emit_at_most_requested:
  assumes "0 \<le> n"
  shows
    "(- 1 \<le> row_spacing params \<longrightarrow>
        (\<forall>ps. generate_standard_layout g n params = Inr ps \<longrightarrow> int (length ps) \<le> n)) \<and>
     (- 1 \<le> row_spacing params \<longrightarrow>
        (\<forall>ps. generate_hot_cold_layout g n params = Inr ps \<longrightarrow> int (length ps) \<le> n)) \<and>
     (\<forall>ps. generate_diagonal_layout g n params dfl = Inr ps \<longrightarrow> int (length ps) \<le> n) \<and>
     (\<forall>ps. generate_perimeter_layout g n params = Some ps \<longrightarrow> int (length ps) \<le> n) \<and>
     (0 < RACK_WIDTH_CELLS + row_spacing params \<longrightarrow>
        generate_perimeter_layout g n params \<noteq> None) \<and>
     (\<forall>ps. generate_pod_layout g n params = Inr ps \<longrightarrow> int (length ps) \<le> n) \<and>
     (\<forall>ps. generate_spine_leaf_layout g n params spine_x = Inr ps \<longrightarrow> int (length ps) \<le> n) \<and>
     (\<forall>ps. generate_cluster_layout g n params = Inr ps \<longrightarrow> int (length ps) \<le> n) \<and>
     (\<forall>ps. generate_circular_layout g n params cfl = Some ps \<longrightarrow> int (length ps) \<le> n) \<and>
     (0 < RACK_WIDTH_CELLS + spacing params \<longrightarrow>
        generate_circular_layout g n params cfl \<noteq> None) \<and>
     (\<forall>ps. generate_cooling_optimized_layout g n params = Inr ps \<longrightarrow> int (length ps) \<le> n) \<and>
     (\<forall>ps. generate_high_density_zones_layout g n params hdc hdw = Inr ps \<longrightarrow>
        int (length ps) \<le> n)"
proof (intro conjI impI allI)
  fix ps
  assume "- 1 \<le> row_spacing params" "generate_standard_layout g n params = Inr ps"
  then show "int (length ps) \<le> n"
    unfolding generate_standard_layout_def
    using calculate_rack_positions_length[OF assms] by blast
next
  fix ps
  assume "- 1 \<le> row_spacing params" "generate_hot_cold_layout g n params = Inr ps"
  then show "int (length ps) \<le> n"
    unfolding generate_hot_cold_layout_def
    using calculate_rack_positions_with_aisle_length[OF assms] by blast
next
  fix ps
  assume "generate_diagonal_layout g n params dfl = Inr ps"
  then show "int (length ps) \<le> n" by (rule generate_diagonal_layout_length[OF assms])
next
  fix ps
  assume "generate_perimeter_layout g n params = Some ps"
  then show "int (length ps) \<le> n" by (rule generate_perimeter_layout_length[OF assms])
next
  assume "0 < RACK_WIDTH_CELLS + row_spacing params"
  from perimeter_rings_returns[OF this]
  show "generate_perimeter_layout g n params \<noteq> None"
    by (simp add: generate_perimeter_layout_def Let_def)
next
  fix ps
  assume "generate_pod_layout g n params = Inr ps"
  then show "int (length ps) \<le> n" by (rule generate_pod_layout_length[OF assms])
next
  fix ps
  assume "generate_spine_leaf_layout g n params spine_x = Inr ps"
  then show "int (length ps) \<le> n" by (rule generate_spine_leaf_layout_length[OF assms])
next
  fix ps
  assume "generate_cluster_layout g n params = Inr ps"
  then show "int (length ps) \<le> n" by (rule generate_cluster_layout_length[OF assms])
next
  fix ps
  assume "generate_circular_layout g n params cfl = Some ps"
  then show "int (length ps) \<le> n" by (rule generate_circular_layout_length[OF assms])
next
  assume "0 < RACK_WIDTH_CELLS + spacing params"
  from circular_rings_returns[OF this]
  show "generate_circular_layout g n params cfl \<noteq> None"
    by (simp add: generate_circular_layout_def Let_def)
next
  fix ps
  assume "generate_cooling_optimized_layout g n params = Inr ps"
  then show "int (length ps) \<le> n"
    by (rule generate_cooling_optimized_layout_length[OF assms])
next
  fix ps
  assume "generate_high_density_zones_layout g n params hdc hdw = Inr ps"
  then show "int (length ps) \<le> n"
    by (rule generate_high_density_zones_layout_length[OF assms])
qed

theorem strategies_emit_at_most_requested_witness:
  "(0::int) \<le> 7 \<and> - 1 \<le> row_spacing no_margins \<and>
   0 < RACK_WIDTH_CELLS + row_spacing no_margins \<and>
   0 < RACK_WIDTH_CELLS + spacing no_margins \<and>
   int (length (projr (generate_standard_layout room_10x10 7 no_margins))) \<le> 7 \<and>
   int (length (projr (generate_hot_cold_layout room_10x10 7 no_margins))) \<le> 7 \<and>
   int (length (projr (generate_diagonal_layout room_10x10 7 no_margins sample_diagonal))) \<le> 7 \<and>
   int (length (the (generate_perimeter_layout room_10x10 7 no_margins))) \<le> 7 \<and>
   int (length (projr (generate_pod_layout room_10x10 7 no_margins))) \<le> 7 \<and>
   int (length (projr (generate_spine_leaf_layout room_10x10 7 no_margins (\<lambda>i. 0)))) \<le> 7 \<and>
   int (length (projr (generate_cluster_layout room_10x10 7 no_margins))) \<le> 7 \<and>
   int (length (the (generate_circular_layout room_10x10 7 no_margins sample_circular))) \<le> 7 \<and>
   int (length (projr (generate_cooling_optimized_layout room_10x10 7 no_margins))) \<le> 7 \<and>
   int (length (projr (generate_high_density_zones_layout room_10x10 7 no_margins 2 4))) \<le> 7"
proof -
  have n: "(0::int) \<le> 7" by simp
  have rs: "- 1 \<le> row_spacing no_margins" "0 < RACK_WIDTH_CELLS + row_spacing no_margins"
    "0 < RACK_WIDTH_CELLS + spacing no_margins"
    by (simp_all add: no_margins_def default_params_def)
  have ret:
    "\<not> isl (generate_standard_layout room_10x10 7 no_margins)"
    "\<not> isl (generate_hot_cold_layout room_10x10 7 no_margins)"
    "\<not> isl (generate_diagonal_layout room_10x10 7 no_margins sample_diagonal)"
    "\<not> isl (generate_pod_layout room_10x10 7 no_margins)"
    "\<not> isl (generate_spine_leaf_layout room_10x10 7 no_margins (\<lambda>i. 0))"
    "\<not> isl (generate_cluster_layout room_10x10 7 no_margins)"
    "\<not> isl (generate_cooling_optimized_layout room_10x10 7 no_margins)"
    "\<not> isl (generate_high_density_zones_layout room_10x10 7 no_margins 2 4)"
    unfolding room_10x10_def by code_simp+
  note b = strategies_emit_at_most_requested[OF n, of no_margins room_10x10 sample_diagonal
             "\<lambda>i. 0" sample_circular 2 4]
  have 1: "int (length (projr (generate_standard_layout room_10x10 7 no_margins))) \<le> 7"
    using b rs(1) ret(1) by (metis sum.collapse(2))
  have 2: "int (length (projr (generate_hot_cold_layout room_10x10 7 no_margins))) \<le> 7"
    using b rs(1) ret(2) by (metis sum.collapse(2))
  have 3: "int (length (projr (generate_diagonal_layout room_10x10 7 no_margins
                                 sample_diagonal))) \<le> 7"
    using b ret(3) by (metis sum.collapse(2))
  have 4: "int (length (the (generate_perimeter_layout room_10x10 7 no_margins))) \<le> 7"
    using b rs(2) by (metis option.collapse)
  have 5: "int (length (projr (generate_pod_layout room_10x10 7 no_margins))) \<le> 7"
    using b ret(4) by (metis sum.collapse(2))
  have 6: "int (length (projr (generate_spine_leaf_layout room_10x10 7 no_margins (\<lambda>i. 0))))
             \<le> 7"
    using b ret(5) by (metis sum.collapse(2))
  have 7: "int (length (projr (generate_cluster_layout room_10x10 7 no_margins))) \<le> 7"
    using b ret(6) by (metis sum.collapse(2))
  have 8: "int (length (the (generate_circular_layout room_10x10 7 no_margins
                               sample_circular))) \<le> 7"
    using b rs(3) by (metis option.collapse)
  have 9: "int (length (projr (generate_cooling_optimized_layout room_10x10 7 no_margins))) \<le> 7"
    using b ret(7) by (metis sum.collapse(2))
  have 10: "int (length (projr (generate_high_density_zones_layout room_10x10 7 no_margins
                                  2 4))) \<le> 7"
    using b ret(8) by (metis sum.collapse(2))
  from n rs 1 2 3 4 5 6 7 8 9 10 show ?thesis by blast
qed

section \<open>Scoring and selecting a layout\<close>

lemma map_length_update_cell: "map length (a[r := (a ! r)[c := v]]) = map length a"
proof (cases "r < length a")
  case True
  then show ?thesis by (simp add: map_update list_update_same_conv)
next
  case False
  then have "length a \<le> r" by linarith
  then have "a[r := (a ! r)[c := v]] = a" by (rule list_update_beyond)
  then show ?thesis by (rule arg_cong)
qed

lemma clear_cell_shape: "map length (clear_cell a c) = map length a"
  by (auto simp: clear_cell_def np_set_def map_length_update_cell
      split: sum.splits option.splits)

lemma foldl_clear_cell_shape: "map length (foldl clear_cell a cs) = map length a"
  by (induction cs arbitrary: a) (simp_all add: clear_cell_shape)

lemma foldl_clear_rack_shape:
  "map length (foldl (\<lambda>a rack. foldl clear_cell a (clear_rack_cells rack)) a rs) = map length a"
  by (induction rs arbitrary: a) (simp_all add: foldl_clear_cell_shape)

lemma shape_ok_map_length:
  "shape_ok g \<longleftrightarrow> int (length (map length (grid g))) = grid_length g \<and>
     list_all (\<lambda>n. int n = grid_width g) (map length (grid g))"
  by (simp add: shape_ok_def list_all_iff)

lemma clear_racks_shape_ok: "shape_ok g \<Longrightarrow> shape_ok (clear_racks g)"
  unfolding shape_ok_map_length by (simp add: clear_racks_def foldl_clear_rack_shape)

lemma clear_racks_dims:
  "grid_width (clear_racks g) = grid_width g" "grid_length (clear_racks g) = grid_length g"
  by (simp_all add: clear_racks_def)

lemma place_element_Some:
  assumes "place_element g x y w h t = Inr (Some e, g')"
  shows "is_within_grid g x y w h \<and> width_cells e = w \<and> height_cells e = h \<and>
         grid_width g' = grid_width g \<and> grid_length g' = grid_length g"
  using assms
  by (auto simp: place_element_def is_area_empty_def get_real_coordinates_def
      split: sum.splits bool.splits if_splits)

lemma place_element_None: "place_element g x y w h t = Inr (None, g') \<Longrightarrow> g' = g"
  by (auto simp: place_element_def get_real_coordinates_def split: sum.splits bool.splits)

text \<open>Room for one rack: the grid is at least 2 cells wide and 1 cell long.\<close>

lemma place_racks_loop_sized:
  "place_racks_loop g acc xs = Inr (placed, g') \<Longrightarrow> list_all rack_sized acc \<Longrightarrow>
   (acc = [] \<or> 0 < grid_width g * grid_length g) \<Longrightarrow>
   list_all rack_sized placed \<and> (placed = [] \<or> 0 < grid_width g * grid_length g) \<and>
   grid_width g' = grid_width g \<and> grid_length g' = grid_length g"
proof (induction xs arbitrary: g acc)
  case Nil
  then show ?case by simp
next
  case (Cons c xs)
  obtain i x y where c: "c = (i, x, y)" by (cases c)
  from Cons.prems(1) obtain r g1 where
    pe: "place_element g x y RACK_WIDTH_CELLS RACK_HEIGHT_CELLS RACK = Inr (r, g1)"
    by (auto simp: c split: sum.splits)
  show ?case
  proof (cases r)
    case None
    then have "g1 = g" using pe place_element_None by blast
    then have "place_racks_loop g acc xs = Inr (placed, g')"
      using Cons.prems(1) pe None by (simp add: c)
    from Cons.IH[OF this Cons.prems(2,3)] show ?thesis .
  next
    case (Some rack)
    from place_element_Some[OF pe[unfolded Some]]
    have w: "is_within_grid g x y RACK_WIDTH_CELLS RACK_HEIGHT_CELLS"
      and sz: "width_cells rack = RACK_WIDTH_CELLS" "height_cells rack = RACK_HEIGHT_CELLS"
      and dims: "grid_width g1 = grid_width g" "grid_length g1 = grid_length g"
      by auto
    from w have room: "0 < grid_width g * grid_length g"
      by (auto simp: is_within_grid_iff intro!: mult_pos_pos)
    let ?rack = "rack\<lparr>el_id := Some (''R'' @ str_nat (i + 1))\<rparr>"
    let ?g = "g1\<lparr>racks := racks g1 @ [?rack]\<rparr>"
    have run: "place_racks_loop ?g (acc @ [?rack]) xs = Inr (placed, g')"
      using Cons.prems(1) pe Some by (simp add: c Let_def)
    have "rack_sized ?rack" using sz by (simp add: rack_sized_def)
    then have "list_all rack_sized (acc @ [?rack])"
      using Cons.prems(2) by simp
    moreover have "acc @ [?rack] = [] \<or> 0 < grid_width ?g * grid_length ?g"
      using room dims by simp
    ultimately show ?thesis
      using Cons.IH[OF run] room dims by simp
  qed
qed

lemma place_racks_sized:
  assumes "place_racks g ps = Inr (placed, g')"
  shows "list_all rack_sized placed \<and> (placed = [] \<or> 0 < grid_width g * grid_length g) \<and>
         grid_width g' = grid_width g \<and> grid_length g' = grid_length g"
  using place_racks_loop_sized[OF assms[unfolded place_racks_def]] by simp

lemma rack_space_sized:
  "list_all rack_sized rs \<Longrightarrow>
   sum_list (map (\<lambda>rack. width_cells rack * height_cells rack) rs)
     = RACK_WIDTH_CELLS * RACK_HEIGHT_CELLS * int (length rs)"
  by (induction rs) (simp_all add: rack_sized_def)

lemma calculate_metrics_total:
  "calculate_metrics opt lt rs params =
     Inr (opt\<lparr>layout_metrics :=
            AList.update lt
              \<lparr>racks_placed = length rs,
               space_utilization =
                 (if grid_width (opt_grid opt) * grid_length (opt_grid opt) > 0
                  then of_int (sum_list (map (\<lambda>rack. width_cells rack * height_cells rack) rs))
                         / of_int (grid_width (opt_grid opt) * grid_length (opt_grid opt))
                  else 0),
               parameters = params\<rparr>
              (layout_metrics opt)\<rparr>)"
  by (simp add: calculate_metrics_def truediv_def Let_def)

lemma list_all_update:
  "list_all (\<lambda>km. P (snd km)) ms \<Longrightarrow> P v \<Longrightarrow> list_all (\<lambda>km. P (snd km)) (AList.update k v ms)"
  by (induction ms) (auto simp: AList.update.simps)

lemma calculate_metrics_ok:
  assumes "metrics_ok opt" "list_all rack_sized rs"
    and "rs = [] \<or> 0 < grid_width (opt_grid opt) * grid_length (opt_grid opt)"
    and "calculate_metrics opt lt rs params = Inr opt'"
  shows "metrics_ok opt' \<and> opt_grid opt' = opt_grid opt"
proof -
  let ?m = "\<lparr>racks_placed = length rs,
             space_utilization =
               (if grid_width (opt_grid opt) * grid_length (opt_grid opt) > 0
                then of_int (sum_list (map (\<lambda>rack. width_cells rack * height_cells rack) rs))
                       / of_int (grid_width (opt_grid opt) * grid_length (opt_grid opt))
                else 0),
             parameters = params\<rparr>"
  have opt': "opt' = opt\<lparr>layout_metrics := AList.update lt ?m (layout_metrics opt)\<rparr>"
    using assms(4) by (simp add: calculate_metrics_total)
  have "entry_ok (opt_grid opt) ?m"
    using assms(3) by (auto simp: entry_ok_def utilization_of_def rack_space_sized[OF assms(2)])
  then have "list_all (\<lambda>km. entry_ok (opt_grid opt) (snd km))
               (AList.update lt ?m (layout_metrics opt))"
    using assms(1) by (intro list_all_update) (simp_all add: metrics_ok_def)
  moreover have "distinct (map fst (AList.update lt ?m (layout_metrics opt)))"
    using assms(1) by (simp add: metrics_ok_def distinct_update)
  ultimately show ?thesis by (simp add: opt' metrics_ok_def)
qed

lemma entry_ok_dims:
  "grid_width g = grid_width g' \<Longrightarrow> grid_length g = grid_length g' \<Longrightarrow>
   entry_ok g = entry_ok g'"
  by (simp add: entry_ok_def utilization_of_def fun_eq_iff)

lemma metrics_ok_grid:
  "metrics_ok opt \<Longrightarrow> grid_width g = grid_width (opt_grid opt) \<Longrightarrow>
   grid_length g = grid_length (opt_grid opt) \<Longrightarrow> metrics_ok (opt\<lparr>opt_grid := g\<rparr>)"
  using entry_ok_dims[of g "opt_grid opt"] by (simp add: metrics_ok_def)

lemma generate_layout_ok:
  assumes ok: "shape_ok (opt_grid opt)" "metrics_ok opt"
    and run: "generate_layout opt lt n params dfl = Some (r, opt')"
  shows "shape_ok (opt_grid opt') \<and> metrics_ok opt' \<and>
         grid_width (opt_grid opt') = grid_width (opt_grid opt) \<and>
         grid_length (opt_grid opt') = grid_length (opt_grid opt)"
proof -
  let ?g = "clear_racks (opt_grid opt)"
  let ?cleared = "opt\<lparr>opt_grid := ?g\<rparr>"
  have c: "shape_ok ?g" "metrics_ok ?cleared"
    using ok by (simp_all add: clear_racks_shape_ok metrics_ok_grid clear_racks_dims)
  from run obtain res where lp: "layout_positions ?g lt n params dfl = Some res"
    by (auto simp: generate_layout_def Let_def split: option.splits)
  show ?thesis
  proof (cases res)
    case (Inl e)
    then have "opt' = ?cleared" using run lp by (simp add: generate_layout_def Let_def)
    then show ?thesis using c by (simp add: clear_racks_dims)
  next
    case (Inr ps)
    from place_racks_ids[OF c(1), of ps] obtain placed g' where
      pr: "place_racks ?g ps = Inr (placed, g')" and ok': "shape_ok g'" by blast
    from place_racks_sized[OF pr] have sized: "list_all rack_sized placed"
      and room: "placed = [] \<or> 0 < grid_width ?g * grid_length ?g"
      and dims: "grid_width g' = grid_width ?g" "grid_length g' = grid_length ?g" by auto
    let ?placed = "?cleared\<lparr>opt_grid := g'\<rparr>"
    have m: "metrics_ok ?placed"
      using metrics_ok_grid[OF c(2), of g'] dims by simp
    have cm: "calculate_metrics ?placed lt placed params = Inr opt'"
      using run lp Inr pr
      by (auto simp: generate_layout_def Let_def calculate_metrics_total)
    have "placed = [] \<or> 0 < grid_width (opt_grid ?placed) * grid_length (opt_grid ?placed)"
      using room dims by simp
    from calculate_metrics_ok[OF m sized this cm]
    show ?thesis using ok' dims by (simp add: clear_racks_dims)
  qed
qed

lemma generate_layout_default_returns:
  "generate_layout opt lt n default_params dfl \<noteq> None"
proof -
  have "0 < RACK_WIDTH_CELLS + row_spacing default_params" by (simp add: default_params_def)
  from perimeter_rings_returns[OF this]
  have "generate_perimeter_layout g n default_params \<noteq> None" for g
    by (simp add: generate_perimeter_layout_def Let_def)
  then have "layout_positions g lt n default_params dfl \<noteq> None" for g
    by (simp add: layout_positions_def)
  then show ?thesis
    by (auto simp: generate_layout_def Let_def split: option.splits sum.splits prod.splits)
qed

lemma compare_loop_ok:
  assumes "shape_ok (opt_grid opt)" "metrics_ok opt"
  shows "\<exists>res opt'. compare_loop opt results n dfl lts = Some (res, opt') \<and>
           shape_ok (opt_grid opt') \<and> metrics_ok opt' \<and>
           grid_width (opt_grid opt') = grid_width (opt_grid opt) \<and>
           grid_length (opt_grid opt') = grid_length (opt_grid opt)"
  using assms
proof (induction lts arbitrary: opt results)
  case Nil
  then show ?case by simp
next
  case (Cons lt lts)
  from generate_layout_default_returns[of opt lt n dfl] obtain r opt1 where
    g: "generate_layout opt lt n default_params dfl = Some (r, opt1)" by auto
  from generate_layout_ok[OF Cons.prems g]
  have ok1: "shape_ok (opt_grid opt1)" "metrics_ok opt1"
    and dims: "grid_width (opt_grid opt1) = grid_width (opt_grid opt)"
      "grid_length (opt_grid opt1) = grid_length (opt_grid opt)" by auto
  show ?case
  proof (cases r)
    case (Inl e)
    with Cons.IH[OF ok1, of results] g dims show ?thesis by simp
  next
    case (Inr ps)
    with Cons.IH[OF ok1, of "AList.update lt (map_of (layout_metrics opt1) lt) results"] g dims
    show ?thesis by simp
  qed
qed

lemma metric_value_su [simp]:
  "metric_value ''space_utilization'' m = Some (Inr (space_utilization m))"
  by (simp add: metric_value_def)

lemma best_scan_space_utilization:
  "\<exists>bl' bv'. best_scan ''space_utilization'' (bl, bv) ms = Inr (bl', bv') \<and> bv \<le> bv' \<and>
     (\<forall>j<length ms. space_utilization (snd (ms ! j)) \<le> bv') \<and>
     ((bl' = bl \<and> bv' = bv) \<or>
      (\<exists>i<length ms. bl' = Some (fst (ms ! i)) \<and> bv' = space_utilization (snd (ms ! i)) \<and>
         bv < bv' \<and> (\<forall>j<i. space_utilization (snd (ms ! j)) < bv')))"
proof (induction ms arbitrary: bl bv)
  case Nil
  then show ?case by simp
next
  case (Cons km ms)
  obtain k m where km: "km = (k, m)" by (cases km)
  define v where "v = space_utilization m"
  define b where "b = (if v > bv then (Some k, v) else (bl, bv))"
  have step: "best_scan ''space_utilization'' (bl, bv) (km # ms) =
              best_scan ''space_utilization'' (fst b, snd b) ms"
    by (simp add: km b_def v_def)
  from Cons.IH[of "fst b" "snd b"] obtain bl' bv' where
    run: "best_scan ''space_utilization'' (fst b, snd b) ms = Inr (bl', bv')"
    and mono: "snd b \<le> bv'"
    and ub: "\<forall>j<length ms. space_utilization (snd (ms ! j)) \<le> bv'"
    and pick: "(bl' = fst b \<and> bv' = snd b) \<or>
      (\<exists>i<length ms. bl' = Some (fst (ms ! i)) \<and> bv' = space_utilization (snd (ms ! i)) \<and>
         snd b < bv' \<and> (\<forall>j<i. space_utilization (snd (ms ! j)) < bv'))"
    by blast
  have b_ge: "bv \<le> snd b" "v \<le> snd b" by (simp_all add: b_def)
  have ub': "\<forall>j<length (km # ms). space_utilization (snd ((km # ms) ! j)) \<le> bv'"
  proof (intro allI impI)
    fix j assume "j < length (km # ms)"
    then show "space_utilization (snd ((km # ms) ! j)) \<le> bv'"
      using ub b_ge(2) mono by (cases j) (simp_all add: km v_def)
  qed
  have pick': "(bl' = bl \<and> bv' = bv) \<or>
      (\<exists>i<length (km # ms). bl' = Some (fst ((km # ms) ! i)) \<and>
         bv' = space_utilization (snd ((km # ms) ! i)) \<and>
         bv < bv' \<and> (\<forall>j<i. space_utilization (snd ((km # ms) ! j)) < bv'))"
    using pick
  proof
    assume same: "bl' = fst b \<and> bv' = snd b"
    show ?thesis
    proof (cases "v > bv")
      case True
      then have "bl' = Some (fst ((km # ms) ! 0)) \<and>
                 bv' = space_utilization (snd ((km # ms) ! 0)) \<and> bv < bv'"
        using same by (simp add: b_def km v_def)
      then show ?thesis by (intro disjI2 exI[of _ 0]) simp
    next
      case False
      then show ?thesis using same by (simp add: b_def)
    qed
  next
    assume "\<exists>i<length ms. bl' = Some (fst (ms ! i)) \<and> bv' = space_utilization (snd (ms ! i)) \<and>
         snd b < bv' \<and> (\<forall>j<i. space_utilization (snd (ms ! j)) < bv')"
    then obtain i where i: "i < length ms" "bl' = Some (fst (ms ! i))"
      "bv' = space_utilization (snd (ms ! i))" "snd b < bv'"
      "\<forall>j<i. space_utilization (snd (ms ! j)) < bv'" by blast
    have "\<forall>j<Suc i. space_utilization (snd ((km # ms) ! j)) < bv'"
    proof (intro allI impI)
      fix j assume "j < Suc i"
      then show "space_utilization (snd ((km # ms) ! j)) < bv'"
        using i(4,5) b_ge(2) by (cases j) (simp_all add: km v_def)
    qed
    moreover have "bv < bv'" using i(4) b_ge(1) by simp
    ultimately show ?thesis
      using i(1,2,3) by (intro disjI2 exI[of _ "Suc i"]) simp
  qed
  show ?case using step run mono b_ge(1) ub' pick' by auto
qed

lemma utilization_of_nonneg: "0 \<le> utilization_of g k"
proof (cases "0 < grid_width g * grid_length g")
  case True
  then have "(0::rat) < of_int (grid_width g * grid_length g)" by (simp only: of_int_0_less_iff)
  moreover have "(0::rat) \<le> of_int (RACK_WIDTH_CELLS * RACK_HEIGHT_CELLS * int k)" by simp
  ultimately show ?thesis
    unfolding utilization_of_def using True by (simp only: if_True divide_nonneg_pos)
next
  case False
  then show ?thesis by (simp add: utilization_of_def)
qed

lemma utilization_of_positive:
  assumes "0 < k" and "0 < grid_width g * grid_length g"
  shows "0 < utilization_of g k"
proof -
  have "(0::rat) < of_int (grid_width g * grid_length g)"
    using assms(2) by (simp only: of_int_0_less_iff)
  moreover have "(0::rat) < of_int (RACK_WIDTH_CELLS * RACK_HEIGHT_CELLS * int k)"
    using assms(1) by simp
  ultimately show ?thesis
    unfolding utilization_of_def using assms(2) by (simp only: if_True divide_pos_pos)
qed

lemma metrics_ok_nth:
  "metrics_ok opt \<Longrightarrow> j < length (layout_metrics opt) \<Longrightarrow>
   entry_ok (opt_grid opt) (snd (layout_metrics opt ! j))"
  by (simp add: metrics_ok_def list_all_length)

text \<open>
  Claim C9. On an optimizer whose metrics were all stored by \<open>calculate_metrics\<close>,
  \<open>get_best_layout\<close> with the metric \<open>space_utilization\<close> returns without an exception.
  It runs the whole comparison first exactly when the dictionary has fewer than five
  entries. Every entry is scored as the cell area of its placed racks over the cell area
  of the grid (0 for a grid without cells), and \<open>calculate_metrics\<close> never raises. The
  layout returned is the first one, in the order of the dictionary, whose score is the
  maximum; a layout that placed no rack is returned only when none placed any.
\<close>

theorem get_best_layout_space_utilization:
  assumes "shape_ok (opt_grid opt)" and "metrics_ok opt"
  shows "\<exists>best opt'.
     get_best_layout opt n ''space_utilization'' dfl =
       Some (Inr (best, case best of None \<Rightarrow> None | Some k \<Rightarrow> map_of (layout_metrics opt') k),
             opt') \<and>
     (if length (layout_metrics opt) < 5
      then map_option snd (compare_layouts opt n dfl) = Some opt' else opt' = opt) \<and>
     metrics_ok opt' \<and>
     (\<forall>lt rs params. \<not> isl (calculate_metrics opt' lt rs params)) \<and>
     (layout_metrics opt' = [] \<longrightarrow> best = None) \<and>
     (layout_metrics opt' \<noteq> [] \<longrightarrow>
        (\<exists>i<length (layout_metrics opt').
           best = Some (fst (layout_metrics opt' ! i)) \<and>
           (\<forall>j<length (layout_metrics opt').
              space_utilization (snd (layout_metrics opt' ! j))
                \<le> space_utilization (snd (layout_metrics opt' ! i))) \<and>
           (\<forall>j<i. space_utilization (snd (layout_metrics opt' ! j))
                     < space_utilization (snd (layout_metrics opt' ! i))) \<and>
           (racks_placed (snd (layout_metrics opt' ! i)) = 0 \<longrightarrow>
              (\<forall>j<length (layout_metrics opt').
                 racks_placed (snd (layout_metrics opt' ! j)) = 0))))"
proof -
  obtain opt' where
    rerun: "(if length (layout_metrics opt) < 5
             then map_option snd (compare_layouts opt n dfl) else Some opt) = Some opt'"
    and ok': "metrics_ok opt'"
  proof (cases "length (layout_metrics opt) < 5")
    case True
    from compare_loop_ok[OF assms] obtain res o' where
      "compare_layouts opt n dfl = Some (res, o')" "metrics_ok o'"
      unfolding compare_layouts_def by blast
    then show ?thesis using that[of o'] True by simp
  next
    case False
    then show ?thesis using that[of opt] assms(2) by simp
  qed
  let ?ms = "layout_metrics opt'"
  from best_scan_space_utilization[of None "- 1" ?ms] obtain best bv where
    scan: "best_scan ''space_utilization'' (None, - 1) ?ms = Inr (best, bv)"
    and ub: "\<forall>j<length ?ms. space_utilization (snd (?ms ! j)) \<le> bv"
    and pick: "(best = None \<and> bv = - 1) \<or>
      (\<exists>i<length ?ms. best = Some (fst (?ms ! i)) \<and> bv = space_utilization (snd (?ms ! i)) \<and>
         - 1 < bv \<and> (\<forall>j<i. space_utilization (snd (?ms ! j)) < bv))"
    by blast
  have su: "space_utilization (snd (?ms ! j)) = utilization_of (opt_grid opt') (racks_placed (snd (?ms ! j)))"
    and room: "racks_placed (snd (?ms ! j)) = 0 \<or> 0 < grid_width (opt_grid opt') * grid_length (opt_grid opt')"
    if "j < length ?ms" for j
    using metrics_ok_nth[OF ok' that] by (simp_all add: entry_ok_def)
  have result: "get_best_layout opt n ''space_utilization'' dfl =
       Some (Inr (best, case best of None \<Rightarrow> None | Some k \<Rightarrow> map_of ?ms k), opt')"
    using rerun scan by (simp add: get_best_layout_def)
  have rr: "if length (layout_metrics opt) < 5
            then map_option snd (compare_layouts opt n dfl) = Some opt' else opt' = opt"
    using rerun by (simp split: if_splits)
  have nodiv: "\<forall>lt rs params. \<not> isl (calculate_metrics opt' lt rs params)"
    by (simp add: calculate_metrics_total)
  have empty: "?ms = [] \<longrightarrow> best = None" using pick by auto
  have nonempty: "?ms \<noteq> [] \<longrightarrow>
        (\<exists>i<length ?ms.
           best = Some (fst (?ms ! i)) \<and>
           (\<forall>j<length ?ms. space_utilization (snd (?ms ! j)) \<le> space_utilization (snd (?ms ! i))) \<and>
           (\<forall>j<i. space_utilization (snd (?ms ! j)) < space_utilization (snd (?ms ! i))) \<and>
           (racks_placed (snd (?ms ! i)) = 0 \<longrightarrow>
              (\<forall>j<length ?ms. racks_placed (snd (?ms ! j)) = 0)))"
  proof
    assume ne: "?ms \<noteq> []"
    then have "0 < length ?ms" by simp
    from su[OF this] have "0 \<le> space_utilization (snd (?ms ! 0))"
      by (simp add: utilization_of_nonneg)
    with ub \<open>0 < length ?ms\<close> have "0 \<le> bv" by force
    with pick obtain i where i: "i < length ?ms" "best = Some (fst (?ms ! i))"
      "bv = space_utilization (snd (?ms ! i))"
      "\<forall>j<i. space_utilization (snd (?ms ! j)) < bv" by auto
    have zero: "racks_placed (snd (?ms ! i)) = 0 \<longrightarrow>
                (\<forall>j<length ?ms. racks_placed (snd (?ms ! j)) = 0)"
    proof (intro impI allI)
      fix j assume z: "racks_placed (snd (?ms ! i)) = 0" and j: "j < length ?ms"
      from su[OF i(1)] z i(3) have "bv = 0" by (simp add: utilization_of_def)
      with ub j have le: "space_utilization (snd (?ms ! j)) \<le> 0" by simp
      show "racks_placed (snd (?ms ! j)) = 0"
      proof (rule ccontr)
        assume "racks_placed (snd (?ms ! j)) \<noteq> 0"
        then have "0 < racks_placed (snd (?ms ! j))" by simp
        moreover from this room[OF j]
        have "0 < grid_width (opt_grid opt') * grid_length (opt_grid opt')" by simp
        ultimately have "0 < utilization_of (opt_grid opt') (racks_placed (snd (?ms ! j)))"
          by (rule utilization_of_positive)
        with su[OF j] le show False by simp
      qed
    qed
    show "\<exists>i<length ?ms.
           best = Some (fst (?ms ! i)) \<and>
           (\<forall>j<length ?ms. space_utilization (snd (?ms ! j)) \<le> space_utilization (snd (?ms ! i))) \<and>
           (\<forall>j<i. space_utilization (snd (?ms ! j)) < space_utilization (snd (?ms ! i))) \<and>
           (racks_placed (snd (?ms ! i)) = 0 \<longrightarrow>
              (\<forall>j<length ?ms. racks_placed (snd (?ms ! j)) = 0))"
      using i ub zero by (intro exI[of _ i]) simp
  qed
  show ?thesis
    by (intro exI[of _ best] exI[of _ opt'] conjI result rr ok' nodiv empty nonempty)
qed

theorem get_best_layout_space_utilization_witness:
  "shape_ok (opt_grid (RackLayoutOptimizer_init room_10x10)) \<and>
   metrics_ok (RackLayoutOptimizer_init room_10x10) \<and>
   map_sum id fst (fst (the (get_best_layout (RackLayoutOptimizer_init room_10x10) 20
                               ''space_utilization'' sample_diagonal)))
     = Inr (Some LAYOUT_PERIMETER) \<and>
   map (\<lambda>km. (fst km, racks_placed (snd km)))
     (layout_metrics (snd (the (get_best_layout (RackLayoutOptimizer_init room_10x10) 20
                                  ''space_utilization'' sample_diagonal))))
     = [(LAYOUT_STANDARD, 2), (LAYOUT_HOT_COLD, 0), (LAYOUT_DIAGONAL, 3),
        (LAYOUT_PERIMETER, 5), (LAYOUT_PODS, 0)] \<and>
   metrics_ok (snd (the (get_best_layout (RackLayoutOptimizer_init room_10x10) 20
                           ''space_utilization'' sample_diagonal)))"
proof -
  have ok: "shape_ok (opt_grid (RackLayoutOptimizer_init room_10x10))"
    unfolding room_10x10_def by code_simp
  have mok: "metrics_ok (RackLayoutOptimizer_init room_10x10)"
    by (simp add: metrics_ok_def RackLayoutOptimizer_init_def)
  have best: "map_sum id fst (fst (the (get_best_layout (RackLayoutOptimizer_init room_10x10) 20
                               ''space_utilization'' sample_diagonal)))
     = Inr (Some LAYOUT_PERIMETER)"
    unfolding room_10x10_def by code_simp
  have counts: "map (\<lambda>km. (fst km, racks_placed (snd km)))
     (layout_metrics (snd (the (get_best_layout (RackLayoutOptimizer_init room_10x10) 20
                                  ''space_utilization'' sample_diagonal))))
     = [(LAYOUT_STANDARD, 2), (LAYOUT_HOT_COLD, 0), (LAYOUT_DIAGONAL, 3),
        (LAYOUT_PERIMETER, 5), (LAYOUT_PODS, 0)]"
    unfolding room_10x10_def by code_simp
  from get_best_layout_space_utilization[OF ok mok, of 20 sample_diagonal]
  obtain r opt' where
    "get_best_layout (RackLayoutOptimizer_init room_10x10) 20 ''space_utilization''
       sample_diagonal = Some (r, opt')" and "metrics_ok opt'"
    by blast
  then have "metrics_ok (snd (the (get_best_layout (RackLayoutOptimizer_init room_10x10) 20
                           ''space_utilization'' sample_diagonal)))"
    by simp
  with ok mok best counts show ?thesis by blast
qed

end
